theory Spec2Isabelle
  imports Complex_Main "HOL-Library.AList" "HOL-Library.Code_Target_Nat"
begin

section \<open>The document store\<close>

text \<open>
  The application keeps all state in a hosted document database and runs its logic in UI
  event handlers. A collection, a map field of a document and a JavaScript object used as
  a dictionary are all modelled the same way: a list of key/value pairs read with
  \<open>map_of\<close>, written with \<open>AList.update\<close> (an existing key keeps its place, a new key is
  appended, as \<^verbatim>\<open>obj[k] = v\<close> does) and deleted from with \<open>AList.delete\<close>.
  \<^verbatim>\<open>serverTimestamp()\<close> is the time of the write, passed to every handler as \<open>now\<close>.
  A loaded document \<^verbatim>\<open>{ id: doc.id, ...doc.data() }\<close> is the pair of its key and its data.
\<close>

type_synonym timestamp = nat

type_synonym 'v obj = "(string \<times> 'v) list"

text \<open>\<^verbatim>\<open>Student\<close> and \<^verbatim>\<open>ArchivedStudent\<close> of the type declarations.\<close>

record student_doc =
  name :: string
  email :: string
  createdAt :: "timestamp option"
  restoredAt :: "timestamp option"

record archived_doc = student_doc +
  originalId :: string
  deletedAt :: timestamp

type_synonym student = "string \<times> student_doc"

type_synonym archived_student = "string \<times> archived_doc"

subsection \<open>Attendance documents\<close>

datatype attendance_status = Present | Absent | Leave

record attendance_record =
  id_rec :: string
  studentId_rec :: string
  studentName_rec :: string
  email_rec :: string
  date_rec :: string
  status_rec :: attendance_status
  note_rec :: "string option"
  updatedAt_rec :: timestamp

record summary_counts =
  present :: nat
  absent :: nat
  leave :: nat
  total :: nat

record attendance_doc =
  date_doc :: string
  records :: "attendance_record obj"
  summary :: summary_counts

text \<open>
  An entry of the page state \<^verbatim>\<open>attendanceData\<close>. The handler guards with
  \<^verbatim>\<open>attendeeAttendance?.status\<close> and \<^verbatim>\<open>attendeeAttendance.note || ""\<close>, so both fields may be
  missing at run time.
\<close>

record attendance_edit =
  status_edit :: "attendance_status option"
  note_edit :: "string option"

subsection \<open>Assignments and submissions\<close>

datatype assignment_status = Assigned | Submitted | Graded

text \<open>
  \<^verbatim>\<open>StudentAssignmentStatus\<close>. An entry that a dot-path update creates holds only the fields
  of that update, so the identifying fields are optional here as well.
\<close>

record status_entry =
  studentId_e :: "string option"
  studentName_e :: "string option"
  email_e :: "string option"
  status_e :: assignment_status
  grade_e :: "string option"
  note_e :: "string option"
  fileURL_e :: "string option"
  fileName_e :: "string option"
  updatedAt_e :: timestamp

record assignment_doc =
  title :: string
  description :: "string option"
  dueDate :: string
  resourceUrl :: "string option"
  createdAt_a :: timestamp
  statusMap :: "status_entry obj"

datatype submission_status = submitted | graded

record submission_doc =
  assignmentId :: string
  studentId_s :: string
  studentEmail :: "string option"
  fileURL_s :: "string option"
  fileName_s :: "string option"
  notes_s :: "string option"
  submittedAt :: timestamp
  status_s :: submission_status
  grade_s :: "string option"
  feedback_s :: "string option"

text \<open>The five collections the handlers read and write.\<close>

record store =
  attendees :: "student_doc obj"
  deleted_attendees :: "archived_doc obj"
  attendance :: "attendance_doc obj"
  assignments :: "assignment_doc obj"
  submissions :: "submission_doc obj"

datatype error = DuplicateEmail | NotFound | TypeError

section \<open>Mark attendance: \<^verbatim>\<open>handleSaveAll\<close>\<close>

text \<open>
  The body of \<^verbatim>\<open>attendees.forEach\<close>: an attendee whose entry of \<^verbatim>\<open>attendanceData\<close> has a
  status gets a freshly built record under its own id; any other attendee is skipped.
\<close>

definition mark_attendee ::
  "string \<Rightarrow> timestamp \<Rightarrow> attendance_edit obj \<Rightarrow> student \<Rightarrow> attendance_record obj
    \<Rightarrow> attendance_record obj" where
  "mark_attendee dateStr now attendanceData attendee recs =
     (case map_of attendanceData (fst attendee) of
        None \<Rightarrow> recs
      | Some attendeeAttendance \<Rightarrow>
          (case status_edit attendeeAttendance of
             None \<Rightarrow> recs
           | Some st \<Rightarrow>
               AList.update (fst attendee)
                 \<lparr> id_rec = dateStr @ ''_'' @ fst attendee,
                   studentId_rec = fst attendee,
                   studentName_rec = name (snd attendee),
                   email_rec = email (snd attendee),
                   date_rec = dateStr,
                   status_rec = st,
                   note_rec = Some (case note_edit attendeeAttendance of
                                      None \<Rightarrow> '''' | Some n \<Rightarrow> n),
                   updatedAt_rec = now \<rparr>
                 recs))"

text \<open>The body of \<^verbatim>\<open>Object.values(records).forEach\<close>: one counter goes up per record.\<close>

definition tally :: "attendance_record \<Rightarrow> summary_counts \<Rightarrow> summary_counts" where
  "tally rec s =
     (if status_rec rec = Present then s\<lparr>present := present s + 1\<rparr>
      else if status_rec rec = Absent then s\<lparr>absent := absent s + 1\<rparr>
      else if status_rec rec = Leave then s\<lparr>leave := leave s + 1\<rparr>
      else s)"

definition count_summary :: "attendance_record obj \<Rightarrow> summary_counts" where
  "count_summary recs =
     (fold tally (map snd recs) \<lparr>present = 0, absent = 0, leave = 0, total = 0\<rparr>)
       \<lparr>total := length (map fst recs)\<rparr>"

text \<open>The document the handler builds from the records it has read.\<close>

definition docPayload ::
  "string \<Rightarrow> timestamp \<Rightarrow> student list \<Rightarrow> attendance_edit obj \<Rightarrow> attendance_record obj
    \<Rightarrow> attendance_doc" where
  "docPayload dateStr now attendeeList attendanceData existingRecords =
     (let recs = fold (mark_attendee dateStr now attendanceData) attendeeList existingRecords
      in \<lparr>date_doc = dateStr, records = recs, summary = count_summary recs\<rparr>)"

text \<open>
  \<^verbatim>\<open>setDoc(docRef, docPayload, { merge: true })\<close>: the database merges the payload into the
  stored document field by field, through nested maps. A record of the payload brings
  every field but possibly \<^verbatim>\<open>note\<close>; an empty map in the payload replaces the stored one.
\<close>

definition merge_record :: "attendance_record \<Rightarrow> attendance_record \<Rightarrow> attendance_record" where
  "merge_record old new =
     new\<lparr>note_rec := (case note_rec new of None \<Rightarrow> note_rec old | Some n \<Rightarrow> Some n)\<rparr>"

definition merge_entry ::
  "string \<times> attendance_record \<Rightarrow> attendance_record obj \<Rightarrow> attendance_record obj" where
  "merge_entry kr stored =
     AList.update (fst kr)
       (case map_of stored (fst kr) of
          None \<Rightarrow> snd kr
        | Some old \<Rightarrow> merge_record old (snd kr))
       stored"

definition setDoc_merge :: "attendance_doc option \<Rightarrow> attendance_doc \<Rightarrow> attendance_doc" where
  "setDoc_merge stored payload =
     (case stored of
        None \<Rightarrow> payload
      | Some d \<Rightarrow>
          \<lparr> date_doc = date_doc payload,
            records = (if records payload = [] then []
                       else fold merge_entry (records payload) (records d)),
            summary = summary payload \<rparr>)"

definition handleSaveAll ::
  "string \<Rightarrow> timestamp \<Rightarrow> student list \<Rightarrow> attendance_edit obj \<Rightarrow> store \<Rightarrow> store" where
  "handleSaveAll dateStr now attendeeList attendanceData s =
     (let existingDocSnap = map_of (attendance s) dateStr;
          existingRecords = (case existingDocSnap of None \<Rightarrow> [] | Some d \<Rightarrow> records d);
          payload = docPayload dateStr now attendeeList attendanceData existingRecords
      in s\<lparr>attendance :=
             AList.update dateStr (setDoc_merge existingDocSnap payload) (attendance s)\<rparr>)"

section \<open>Manage attendees: \<^verbatim>\<open>AttendeeForm.onSubmit\<close>, \<^verbatim>\<open>handleSoftDelete\<close>, \<^verbatim>\<open>handleRestore\<close>\<close>

record attendee_form_values =
  name_v :: string
  email_v :: string

text \<open>
  The form handler serves both the add dialog (\<^verbatim>\<open>attendeeToEdit\<close> is null) and the edit dialog.
  The two queries \<^verbatim>\<open>where("email", "==", data.email)\<close> select by equality of strings.
  \<^verbatim>\<open>addDoc\<close> stores the new document under an id generated by the database, here \<open>newId\<close>.
  \<^verbatim>\<open>updateDoc\<close> rejects when the document does not exist; the handler's \<^verbatim>\<open>catch\<close> reports it.
\<close>

definition AttendeeForm_onSubmit ::
  "student option \<Rightarrow> string \<Rightarrow> timestamp \<Rightarrow> attendee_form_values \<Rightarrow> store
    \<Rightarrow> error option \<times> store" where
  "AttendeeForm_onSubmit attendeeToEdit newId now data s =
     (let activeSnapshot = filter (\<lambda>d. email (snd d) = email_v data) (attendees s);
          deletedSnapshot = filter (\<lambda>d. email (snd d) = email_v data) (deleted_attendees s);
          emailExists1 =
            (case activeSnapshot of
               [] \<Rightarrow> False
             | doc0 # _ \<Rightarrow>
                 (case attendeeToEdit of
                    Some e \<Rightarrow> fst doc0 \<noteq> fst e
                  | None \<Rightarrow> True));
          emailExists = (if deletedSnapshot \<noteq> [] then True else emailExists1)
      in if emailExists then (Some DuplicateEmail, s)
         else
           (case attendeeToEdit of
              Some e \<Rightarrow>
                (case map_of (attendees s) (fst e) of
                   None \<Rightarrow> (Some NotFound, s)
                 | Some d \<Rightarrow>
                     (None, s\<lparr>attendees :=
                        AList.update (fst e) (d\<lparr>name := name_v data, email := email_v data\<rparr>)
                          (attendees s)\<rparr>))
            | None \<Rightarrow>
                (None, s\<lparr>attendees := attendees s @
                   [(newId, \<lparr>name = name_v data, email = email_v data,
                             createdAt = Some now, restoredAt = None\<rparr>)]\<rparr>)))"

text \<open>
  Soft delete copies the attendee into the archive under the same id, with
  \<^verbatim>\<open>originalId\<close> and \<^verbatim>\<open>deletedAt\<close> added, then deletes the active document.
\<close>

definition handleSoftDelete :: "timestamp \<Rightarrow> student \<Rightarrow> store \<Rightarrow> store" where
  "handleSoftDelete now attendee s =
     s\<lparr>deleted_attendees :=
         AList.update (fst attendee)
           \<lparr>name = name (snd attendee), email = email (snd attendee),
            createdAt = createdAt (snd attendee), restoredAt = restoredAt (snd attendee),
            originalId = fst attendee, deletedAt = now\<rparr>
           (deleted_attendees s),
       attendees := AList.delete (fst attendee) (attendees s)\<rparr>"

text \<open>
  Restore returns before any write when an active attendee has the archived email. Otherwise
  it writes the active document under \<^verbatim>\<open>attendee.originalId || attendee.id\<close> and deletes the
  archive document.
\<close>

definition handleRestore ::
  "timestamp \<Rightarrow> archived_student \<Rightarrow> store \<Rightarrow> error option \<times> store" where
  "handleRestore now attendee s =
     (let snapshot = filter (\<lambda>d. email (snd d) = email (snd attendee)) (attendees s)
      in if snapshot \<noteq> [] then (Some DuplicateEmail, s)
         else
           (None,
            s\<lparr>attendees :=
                AList.update
                  (if originalId (snd attendee) \<noteq> [] then originalId (snd attendee)
                   else fst attendee)
                  \<lparr>name = name (snd attendee), email = email (snd attendee),
                   createdAt = (case createdAt (snd attendee) of
                                  Some c \<Rightarrow> Some c | None \<Rightarrow> Some now),
                   restoredAt = Some now\<rparr>
                  (attendees s),
              deleted_attendees := AList.delete (fst attendee) (deleted_attendees s)\<rparr>))"

section \<open>Assignments: \<^verbatim>\<open>CreateAssignmentPage.onSubmit\<close> and \<^verbatim>\<open>handleSyncAttendees\<close>\<close>

record assignment_form_values =
  title_v :: string
  description_v :: "string option"
  dueDate_v :: string
  resourceUrl_v :: "string option"

text \<open>
  The entry both handlers write for an attendee: the same object literal in
  \<^verbatim>\<open>onSubmit\<close> and in \<^verbatim>\<open>handleSyncAttendees\<close>.
\<close>

definition assigned_entry :: "timestamp \<Rightarrow> student \<Rightarrow> status_entry" where
  "assigned_entry now attendee =
     \<lparr> studentId_e = Some (fst attendee),
       studentName_e = Some (name (snd attendee)),
       email_e = Some (email (snd attendee)),
       status_e = Assigned,
       grade_e = Some '''',
       note_e = Some '''',
       fileURL_e = None,
       fileName_e = None,
       updatedAt_e = now \<rparr>"

definition CreateAssignmentPage_onSubmit ::
  "string \<Rightarrow> timestamp \<Rightarrow> assignment_form_values \<Rightarrow> store \<Rightarrow> store" where
  "CreateAssignmentPage_onSubmit newId now data s =
     (let attendeeList = attendees s;
          statusMap0 =
            fold (\<lambda>attendee m. AList.update (fst attendee) (assigned_entry now attendee) m)
              attendeeList []
      in s\<lparr>assignments := assignments s @
            [(newId, \<lparr> title = title_v data,
                       description = description_v data,
                       dueDate = dueDate_v data,
                       resourceUrl = resourceUrl_v data,
                       createdAt_a = now,
                       statusMap = statusMap0 \<rparr>)]\<rparr>)"

text \<open>
  The tracking page holds the assignment as it was loaded and the status map under edit.
\<close>

record track_page =
  assignment_p :: "assignment_doc option"
  statusMap_p :: "status_entry obj"

definition fetchAssignment :: "string \<Rightarrow> track_page \<times> store \<Rightarrow> track_page \<times> store" where
  "fetchAssignment id_a ps =
     (case map_of (assignments (snd ps)) id_a of
        Some data \<Rightarrow> (\<lparr>assignment_p = Some data, statusMap_p = statusMap data\<rparr>, snd ps)
      | None \<Rightarrow> ps)"

text \<open>
  \<^verbatim>\<open>handleSaveChanges\<close> stamps every entry that differs from the loaded one
  (\<^verbatim>\<open>assignment?.statusMap[studentId]\<close>), where the source compares the two
  \<^verbatim>\<open>JSON.stringify\<close> images, and replaces the stored map. When the
  document is gone \<^verbatim>\<open>updateDoc\<close> rejects, the handler's own \<^verbatim>\<open>catch\<close> reports it and
  nothing is written.
\<close>

definition loaded_entry :: "assignment_doc option \<Rightarrow> string \<Rightarrow> status_entry option" where
  "loaded_entry loaded studentId =
     (case loaded of None \<Rightarrow> None | Some a \<Rightarrow> map_of (statusMap a) studentId)"

definition stamp_changed ::
  "assignment_doc option \<Rightarrow> timestamp \<Rightarrow> string \<Rightarrow> status_entry obj \<Rightarrow> status_entry obj" where
  "stamp_changed loaded now studentId m =
     (let originalStatus = loaded_entry loaded studentId
      in case map_of m studentId of
           None \<Rightarrow> m
         | Some currentStatus \<Rightarrow>
             if originalStatus \<noteq> Some currentStatus
             then AList.update studentId (currentStatus\<lparr>updatedAt_e := now\<rparr>) m
             else m)"

definition handleSaveChanges ::
  "string \<Rightarrow> timestamp \<Rightarrow> status_entry obj \<Rightarrow> track_page \<times> store \<Rightarrow> track_page \<times> store" where
  "handleSaveChanges id_a now mapToSave ps =
     (let updatedStatusMap =
            fold (stamp_changed (assignment_p (fst ps)) now) (map fst mapToSave) mapToSave
      in case map_of (assignments (snd ps)) id_a of
           None \<Rightarrow> ps
         | Some a \<Rightarrow>
             ((fst ps)\<lparr>assignment_p :=
                 map_option (\<lambda>prev. prev\<lparr>statusMap := updatedStatusMap\<rparr>) (assignment_p (fst ps))\<rparr>,
              (snd ps)\<lparr>assignments :=
                 AList.update id_a (a\<lparr>statusMap := updatedStatusMap\<rparr>) (assignments (snd ps))\<rparr>))"

text \<open>The body of \<^verbatim>\<open>allAttendees.forEach\<close>, on the new map and the counter.\<close>

definition sync_attendee ::
  "timestamp \<Rightarrow> student \<Rightarrow> status_entry obj \<times> nat \<Rightarrow> status_entry obj \<times> nat" where
  "sync_attendee now attendee acc =
     (if map_of (fst acc) (fst attendee) = None
      then (AList.update (fst attendee) (assigned_entry now attendee) (fst acc), snd acc + 1)
      else acc)"

definition handleSyncAttendees ::
  "string \<Rightarrow> timestamp \<Rightarrow> track_page \<times> store \<Rightarrow> track_page \<times> store" where
  "handleSyncAttendees id_a now ps =
     (let allAttendees = attendees (snd ps);
          synced = fold (sync_attendee now) allAttendees (statusMap_p (fst ps), 0);
          newStatusMap = fst synced;
          newAttendeesCount = snd synced
      in if newAttendeesCount > 0
         then fetchAssignment id_a
                (handleSaveChanges id_a now newStatusMap
                   ((fst ps)\<lparr>statusMap_p := newStatusMap\<rparr>, snd ps))
         else ps)"

section \<open>Submissions: \<^verbatim>\<open>handleSubmitAssignment\<close> and \<^verbatim>\<open>handleSaveReview\<close>\<close>

record auth_user =
  uid :: string
  email_u :: "string option"

text \<open>
  A student submits: the submission document \<^verbatim>\<open>assignmentId_studentId\<close> is written with
  \<^verbatim>\<open>{ merge: true }\<close>, so a document already there keeps the fields this write does not
  name; then five fields of the student's entry are set by dot path, which creates
  the entry when it is missing. Document ids are the database's generated ids and
  hold no dot. The handler returns at once when one of its three inputs is null.
\<close>

definition handleSubmitAssignment ::
  "(string \<times> assignment_doc) option \<Rightarrow> student option \<Rightarrow> auth_user option \<Rightarrow> string
    \<Rightarrow> timestamp \<Rightarrow> store \<Rightarrow> error option \<times> store" where
  "handleSubmitAssignment selectedAssignment studentProfile user submissionNote now s =
     (case selectedAssignment of
        None \<Rightarrow> (None, s)
      | Some sel \<Rightarrow>
     (case studentProfile of
        None \<Rightarrow> (None, s)
      | Some profile \<Rightarrow>
     (case user of
        None \<Rightarrow> (None, s)
      | Some u \<Rightarrow>
          (let studentId = fst profile;
               submissionId = fst sel @ ''_'' @ studentId;
               submission =
                 (case map_of (submissions s) submissionId of
                    None \<Rightarrow>
                      \<lparr> assignmentId = fst sel, studentId_s = studentId,
                        studentEmail = email_u u, fileURL_s = None, fileName_s = None,
                        notes_s = Some submissionNote, submittedAt = now,
                        status_s = submitted, grade_s = None, feedback_s = None \<rparr>
                  | Some d \<Rightarrow>
                      d\<lparr> assignmentId := fst sel, studentId_s := studentId,
                         studentEmail := email_u u, notes_s := Some submissionNote,
                         submittedAt := now, status_s := submitted \<rparr>);
               s1 = s\<lparr>submissions := AList.update submissionId submission (submissions s)\<rparr>
           in case map_of (assignments s1) (fst sel) of
                None \<Rightarrow> (Some NotFound, s1)
              | Some a \<Rightarrow>
                  (let entry =
                         (case map_of (statusMap a) studentId of
                            None \<Rightarrow>
                              \<lparr> studentId_e = None, studentName_e = None, email_e = None,
                                status_e = Submitted, grade_e = None,
                                note_e = Some submissionNote, fileURL_e = Some '''',
                                fileName_e = Some '''', updatedAt_e = now \<rparr>
                          | Some e \<Rightarrow>
                              e\<lparr> status_e := Submitted, note_e := Some submissionNote,
                                 fileURL_e := Some '''', fileName_e := Some '''',
                                 updatedAt_e := now \<rparr>)
                   in (None,
                       s1\<lparr>assignments :=
                            AList.update (fst sel)
                              (a\<lparr>statusMap := AList.update studentId entry (statusMap a)\<rparr>)
                              (assignments s1)\<rparr>))))))"

record review =
  feedback_r :: string
  grade_r :: string

text \<open>
  A teacher saves a review. \<^verbatim>\<open>reviews[submission.id]\<close> is destructured before the
  \<^verbatim>\<open>try\<close>, so a missing entry is an uncaught TypeError. The first \<^verbatim>\<open>updateDoc\<close> sets three
  fields of the submission, the second sets three fields of the student's entry in the
  assignment \<^verbatim>\<open>id\<close> of the page; each rejects when its document does not exist.
\<close>

definition handleSaveReview ::
  "string \<Rightarrow> review obj \<Rightarrow> string \<times> submission_doc \<Rightarrow> timestamp \<Rightarrow> store
    \<Rightarrow> error option \<times> store" where
  "handleSaveReview id_a reviews submission now s =
     (case map_of reviews (fst submission) of
        None \<Rightarrow> (Some TypeError, s)
      | Some rv \<Rightarrow>
          (case map_of (submissions s) (fst submission) of
             None \<Rightarrow> (Some NotFound, s)
           | Some d \<Rightarrow>
               (let s1 = s\<lparr>submissions :=
                             AList.update (fst submission)
                               (d\<lparr> feedback_s := Some (feedback_r rv),
                                   grade_s := Some (grade_r rv),
                                   status_s := graded \<rparr>)
                               (submissions s)\<rparr>
                in case map_of (assignments s1) id_a of
                     None \<Rightarrow> (Some NotFound, s1)
                   | Some a \<Rightarrow>
                       (let studentId = studentId_s (snd submission);
                            entry =
                              (case map_of (statusMap a) studentId of
                                 None \<Rightarrow>
                                   \<lparr> studentId_e = None, studentName_e = None, email_e = None,
                                     status_e = Graded, grade_e = Some (grade_r rv),
                                     note_e = None, fileURL_e = None, fileName_e = None,
                                     updatedAt_e = now \<rparr>
                               | Some e \<Rightarrow>
                                   e\<lparr> status_e := Graded, grade_e := Some (grade_r rv),
                                      updatedAt_e := now \<rparr>)
                        in (None,
                            s1\<lparr>assignments :=
                                 AList.update id_a
                                   (a\<lparr>statusMap := AList.update studentId entry (statusMap a)\<rparr>)
                                   (assignments s1)\<rparr>)))))"

section \<open>The attendance summary: \<^verbatim>\<open>processSummary\<close>\<close>















section \<open>The stores the handlers produce\<close>

text \<open>
  The stores the application can be in: it starts without attendance documents, and
  every later store is the result of one of the handlers above, run with any arguments.
\<close>

inductive reachable :: "store \<Rightarrow> bool" where
  initial: "attendance s = [] \<Longrightarrow> reachable s"
| save_all: "reachable s \<Longrightarrow> reachable (handleSaveAll dateStr now attendeeList attendanceData s)"
| attendee_form:
    "reachable s \<Longrightarrow> reachable (snd (AttendeeForm_onSubmit attendeeToEdit newId now data s))"
| soft_delete: "reachable s \<Longrightarrow> reachable (handleSoftDelete now attendee s)"
| restore: "reachable s \<Longrightarrow> reachable (snd (handleRestore now archived s))"
| create_assignment:
    "reachable s \<Longrightarrow> reachable (CreateAssignmentPage_onSubmit newId now form s)"
| sync_attendees: "reachable s \<Longrightarrow> reachable (snd (handleSyncAttendees id_a now (page, s)))"
| submit_assignment:
    "reachable s \<Longrightarrow>
       reachable (snd (handleSubmitAssignment selectedAssignment studentProfile user
                         submissionNote now s))"
| save_review: "reachable s \<Longrightarrow> reachable (snd (handleSaveReview id_a reviews submission now s))"

text \<open>
  What the readers of a day document rely on: the document carries its key as date, the
  keys of its records are distinct, and every record carries the key it is stored under,
  the date, and their concatenation as id.
\<close>

definition day_consistent :: "string \<Rightarrow> attendance_doc \<Rightarrow> bool" where
  "day_consistent dateKey doc =
     (date_doc doc = dateKey \<and> distinct (map fst (records doc)) \<and>
      (\<forall>kr \<in> set (records doc).
         studentId_rec (snd kr) = fst kr \<and> date_rec (snd kr) = dateKey \<and>
         id_rec (snd kr) = dateKey @ ''_'' @ fst kr))"

section \<open>Notions used in the statements\<close>

text \<open>
  The status an edit set holds for an id: what \<^verbatim>\<open>attendanceData[id]?.status\<close> reads.
\<close>

definition chosen_status :: "attendance_edit obj \<Rightarrow> string \<Rightarrow> attendance_status option" where
  "chosen_status attendanceData k =
     (case map_of attendanceData k of None \<Rightarrow> None | Some e \<Rightarrow> status_edit e)"

text \<open>
  \<open>covers xs xs'\<close>: the two lists have the same keys in the same order, and merging the record
  of \<open>xs\<close> with the one of \<open>xs'\<close> gives the one of \<open>xs'\<close>. \<open>extends xs P\<close>: \<open>P\<close> is such a
  list followed by entries under new keys, all keys distinct.
\<close>

definition covers :: "attendance_record obj \<Rightarrow> attendance_record obj \<Rightarrow> bool" where
  "covers xs xs' =
     list_all2 (\<lambda>a b. fst a = fst b \<and> merge_record (snd a) (snd b) = snd b) xs xs'"

definition extends :: "attendance_record obj \<Rightarrow> attendance_record obj \<Rightarrow> bool" where
  "extends xs P = (\<exists>xs' zs. P = xs' @ zs \<and> covers xs xs' \<and> distinct (map fst P))"

section \<open>Example data\<close>

text \<open>
  Three attendees and a day document, written once for the concrete instances below.
\<close>

abbreviation ann :: student where
  "ann \<equiv> (''s1'', \<lparr>name = ''Ann'', email = ''ann@x.com'', createdAt = Some 1, restoredAt = None\<rparr>)"

abbreviation bob :: student where
  "bob \<equiv> (''s2'', \<lparr>name = ''Bob'', email = ''bob@x.com'', createdAt = Some 2, restoredAt = None\<rparr>)"

abbreviation cy :: student where
  "cy \<equiv> (''s3'', \<lparr>name = ''Cy'', email = ''cy@x.com'', createdAt = None, restoredAt = None\<rparr>)"

abbreviation ann_present :: attendance_record where
  "ann_present \<equiv>
     \<lparr> id_rec = ''2024-01-15_s1'', studentId_rec = ''s1'', studentName_rec = ''Ann'',
       email_rec = ''ann@x.com'', date_rec = ''2024-01-15'', status_rec = Present,
       note_rec = None, updatedAt_rec = 3 \<rparr>"

abbreviation monday :: attendance_doc where
  "monday \<equiv>
     \<lparr> date_doc = ''2024-01-15'',
       records = [(''s1'', ann_present)],
       summary = \<lparr>present = 1, absent = 0, leave = 0, total = 1\<rparr> \<rparr>"

abbreviation monday_store :: store where
  "monday_store \<equiv>
     \<lparr> attendees = [ann, bob, cy], deleted_attendees = [],
       attendance = [(''2024-01-15'', monday)], assignments = [], submissions = [] \<rparr>"

abbreviation monday_edits :: "attendance_edit obj" where
  "monday_edits \<equiv>
     [(''s2'', \<lparr>status_edit = Some Absent, note_edit = Some ''ill''\<rparr>),
      (''s3'', \<lparr>status_edit = None, note_edit = Some ''''\<rparr>)]"

abbreviation ann_archived :: archived_student where
  "ann_archived \<equiv>
     (''s1'', \<lparr>name = ''Ann'', email = ''ann@x.com'', createdAt = Some 1, restoredAt = None,
              originalId = ''s1'', deletedAt = 5\<rparr>)"

abbreviation ann_again :: student where
  "ann_again \<equiv>
     (''n7'', \<lparr>name = ''Ann B'', email = ''ann@x.com'', createdAt = Some 6, restoredAt = None\<rparr>)"

abbreviation blocked_store :: store where
  "blocked_store \<equiv>
     \<lparr> attendees = [bob, ann_again], deleted_attendees = [ann_archived],
       attendance = [], assignments = [], submissions = [] \<rparr>"

definition stamp1 :: "assignment_doc option \<Rightarrow> timestamp \<Rightarrow> string \<Rightarrow> status_entry \<Rightarrow> status_entry" where
  "stamp1 loaded now k c =
     (if loaded_entry loaded k \<noteq> Some c then c\<lparr>updatedAt_e := now\<rparr> else c)"

abbreviation two_roster :: store where
  "two_roster \<equiv>
     \<lparr> attendees = [ann, bob], deleted_attendees = [], attendance = [],
       assignments = [], submissions = [] \<rparr>"


abbreviation essay :: assignment_doc where
  "essay \<equiv>
     \<lparr> title = ''Essay'', description = None, dueDate = ''2024-02-01'', resourceUrl = None,
       createdAt_a = 10,
       statusMap = [(''s1'', assigned_entry 10 ann), (''s2'', assigned_entry 10 bob)] \<rparr>"

abbreviation cy_added :: student where
  "cy_added \<equiv>
     (''s3'', \<lparr>name = ''Cy'', email = ''cy@x.com'', createdAt = Some 11, restoredAt = None\<rparr>)"

abbreviation three_roster :: store where
  "three_roster \<equiv>
     \<lparr> attendees = [ann, bob, cy_added], deleted_attendees = [], attendance = [],
       assignments = [(''hw1'', essay)], submissions = [] \<rparr>"

abbreviation blank_page :: track_page where
  "blank_page \<equiv> \<lparr>assignment_p = None, statusMap_p = []\<rparr>"



abbreviation ann_user :: auth_user where
  "ann_user \<equiv> \<lparr>uid = ''u1'', email_u = Some ''ann@x.com''\<rparr>"

abbreviation ann_submission :: submission_doc where
  "ann_submission \<equiv>
     \<lparr> assignmentId = ''hw1'', studentId_s = ''s1'', studentEmail = Some ''ann@x.com'',
       fileURL_s = None, fileName_s = None, notes_s = Some ''done'', submittedAt = 20,
       status_s = submitted, grade_s = None, feedback_s = None \<rparr>"

abbreviation ann_submitted :: status_entry where
  "ann_submitted \<equiv>
     \<lparr> studentId_e = Some ''s1'', studentName_e = Some ''Ann'', email_e = Some ''ann@x.com'',
       status_e = Submitted, grade_e = Some '''', note_e = Some ''done'',
       fileURL_e = Some '''', fileName_e = Some '''', updatedAt_e = 20 \<rparr>"

abbreviation submitted_store :: store where
  "submitted_store \<equiv>
     \<lparr> attendees = [ann, bob, cy_added], deleted_attendees = [], attendance = [],
       assignments =
         [(''hw1'', essay\<lparr>statusMap := [(''s1'', ann_submitted), (''s2'', assigned_entry 10 bob)]\<rparr>)],
       submissions = [(''hw1_s1'', ann_submission)] \<rparr>"

abbreviation ann_reviews :: "review obj" where
  "ann_reviews \<equiv> [(''hw1_s1'', \<lparr>feedback_r = ''good'', grade_r = ''A''\<rparr>)]"

definition attendance_consistent :: "store \<Rightarrow> bool" where
  "attendance_consistent s = (\<forall>dd \<in> set (attendance s). day_consistent (fst dd) (snd dd))"

abbreviation tuesday_edits :: "attendance_edit obj" where
  "tuesday_edits \<equiv> [(''s1'', \<lparr>status_edit = Some Present, note_edit = None\<rparr>)]"



section \<open>Properties of the attendance ledger\<close>

subsection \<open>Association lists\<close>

lemma update_append:
  "AList.update k v (xs @ ys) =
     (if k \<in> fst ` set xs then AList.update k v xs @ ys else xs @ AList.update k v ys)"
  by (induction xs) (auto)

lemma update_fresh:
  "k \<notin> fst ` set al \<Longrightarrow> AList.update k v al = al @ [(k, v)]"
  by (induction al) auto

lemma map_of_fresh: "k \<notin> fst ` set al \<Longrightarrow> map_of al k = None"
  by (simp add: map_of_eq_None_iff)

lemma map_of_append_fresh:
  "k \<notin> fst ` set pre \<Longrightarrow> map_of (pre @ ys) k = map_of ys k"
  by (induction pre) auto

lemma fold_tally:
  "fold tally rs s =
     s\<lparr>present := present s + length (filter (\<lambda>r. status_rec r = Present) rs),
        absent := absent s + length (filter (\<lambda>r. status_rec r = Absent) rs),
        leave := leave s + length (filter (\<lambda>r. status_rec r = Leave) rs)\<rparr>"
  by (induction rs arbitrary: s) (auto simp: tally_def)

lemma status_partition:
  "length (filter (\<lambda>r. status_rec r = Present) rs)
     + length (filter (\<lambda>r. status_rec r = Absent) rs)
     + length (filter (\<lambda>r. status_rec r = Leave) rs) = length rs"
proof (induction rs)
  case Nil
  show ?case by simp
next
  case (Cons r rs)
  then show ?case by (cases "status_rec r") simp_all
qed

lemma covers_refl: "covers xs xs"
  by (simp add: covers_def merge_record_def list_all2_same split: option.splits)

lemma covers_keys: "covers xs xs' \<Longrightarrow> map fst xs' = map fst xs"
  unfolding covers_def by (induction xs xs' rule: list_all2_induct) auto

lemma covers_update:
  "covers xs xs' \<Longrightarrow> note_rec r \<noteq> None \<Longrightarrow> k \<in> fst ` set xs' \<Longrightarrow>
     covers xs (AList.update k r xs')"
  unfolding covers_def
  by (induction xs xs' rule: list_all2_induct) (auto simp: merge_record_def)

lemma fold_merge_covered:
  "covers xs xs' \<Longrightarrow> distinct (map fst xs') \<Longrightarrow> fst ` set pre \<inter> fst ` set xs' = {} \<Longrightarrow>
     fold merge_entry xs' (pre @ xs) = pre @ xs'"
  unfolding covers_def
proof (induction xs xs' arbitrary: pre rule: list_all2_induct)
  case Nil
  show ?case by simp
next
  case (Cons a xs b xs')
  have k: "fst b \<notin> fst ` set pre" using Cons.prems by auto
  have l: "map_of (pre @ a # xs) (fst b) = Some (snd a)"
    using k Cons.hyps(1) by (cases a) (simp add: map_of_append_fresh del: map_of_append)
  have "merge_entry b (pre @ a # xs) = AList.update (fst b) (snd b) (pre @ a # xs)"
    unfolding merge_entry_def l using Cons.hyps(1) by simp
  also have "\<dots> = (pre @ [b]) @ xs"
    using k Cons.hyps(1) by (cases a; cases b) (simp add: update_append)
  finally have "merge_entry b (pre @ a # xs) = (pre @ [b]) @ xs" .
  moreover have "fold merge_entry xs' ((pre @ [b]) @ xs) = (pre @ [b]) @ xs'"
    using Cons.prems by (intro Cons.IH) auto
  ultimately show ?case by simp
qed

lemma fold_merge_new:
  "distinct (map fst zs) \<Longrightarrow> fst ` set acc \<inter> fst ` set zs = {} \<Longrightarrow>
     fold merge_entry zs acc = acc @ zs"
proof (induction zs arbitrary: acc)
  case Nil
  show ?case by simp
next
  case (Cons z zs)
  have k: "fst z \<notin> fst ` set acc" using Cons.prems by auto
  have "merge_entry z acc = acc @ [z]"
    using k by (simp add: merge_entry_def map_of_fresh update_fresh)
  moreover have "fold merge_entry zs (acc @ [z]) = (acc @ [z]) @ zs"
    using Cons.prems by (intro Cons.IH) auto
  ultimately show ?case by simp
qed

lemma extends_refl: "distinct (map fst xs) \<Longrightarrow> extends xs xs"
  unfolding extends_def using covers_refl[of xs] by (intro exI[of _ xs] exI[of _ "[]"]) simp

lemma extends_update:
  assumes "extends xs P" and "note_rec r \<noteq> None"
  shows "extends xs (AList.update k r P)"
proof -
  from assms(1) obtain xs' zs where P: "P = xs' @ zs" and c: "covers xs xs'"
    and d: "distinct (map fst P)" unfolding extends_def by blast
  have d': "distinct (map fst (AList.update k r P))" using d by (rule distinct_update)
  show ?thesis
  proof (cases "k \<in> fst ` set xs'")
    case True
    then have "AList.update k r P = AList.update k r xs' @ zs" by (simp add: P update_append)
    moreover have "covers xs (AList.update k r xs')" using c assms(2) True by (rule covers_update)
    ultimately show ?thesis unfolding extends_def using d' by blast
  next
    case False
    then have "AList.update k r P = xs' @ AList.update k r zs" by (simp add: P update_append)
    then show ?thesis unfolding extends_def using d' c by blast
  qed
qed

lemma extends_mark:
  "extends xs P \<Longrightarrow> extends xs (mark_attendee dateStr now attendanceData a P)"
  by (auto simp: mark_attendee_def split: option.splits intro: extends_update)

lemma extends_fold_mark:
  "extends xs P \<Longrightarrow> extends xs (fold (mark_attendee dateStr now attendanceData) as P)"
  by (induction as arbitrary: P) (auto intro: extends_mark)

lemma fold_merge_extends:
  assumes "extends xs P"
  shows "fold merge_entry P xs = P"
proof -
  from assms obtain xs' zs where P: "P = xs' @ zs" and c: "covers xs xs'"
    and d: "distinct (map fst P)" unfolding extends_def by blast
  have "fold merge_entry xs' ([] @ xs) = [] @ xs'"
    using c d by (intro fold_merge_covered) (auto simp: P)
  moreover have "fold merge_entry zs xs' = xs' @ zs"
    using d by (intro fold_merge_new) (auto simp: P)
  ultimately show ?thesis by (simp add: P)
qed

lemma setDoc_merge_payload:
  assumes "\<forall>d. stored = Some d \<longrightarrow> distinct (map fst (records d))"
  shows "setDoc_merge stored
           (docPayload dateStr now attendeeList attendanceData
              (case stored of None \<Rightarrow> [] | Some d \<Rightarrow> records d))
         = docPayload dateStr now attendeeList attendanceData
              (case stored of None \<Rightarrow> [] | Some d \<Rightarrow> records d)"
proof (cases stored)
  case None
  then show ?thesis by (simp add: setDoc_merge_def)
next
  case (Some d)
  then have "extends (records d) (fold (mark_attendee dateStr now attendanceData) attendeeList (records d))"
    using assms by (intro extends_fold_mark extends_refl) simp
  then have "fold merge_entry (fold (mark_attendee dateStr now attendanceData) attendeeList (records d)) (records d)
     = fold (mark_attendee dateStr now attendanceData) attendeeList (records d)"
    by (rule fold_merge_extends)
  then show ?thesis using Some by (simp add: setDoc_merge_def docPayload_def Let_def)
qed

lemma handleSaveAll_stored:
  assumes "\<forall>d. map_of (attendance s) dateStr = Some d \<longrightarrow> distinct (map fst (records d))"
  shows "map_of (attendance (handleSaveAll dateStr now attendeeList attendanceData s)) dateStr
         = Some (docPayload dateStr now attendeeList attendanceData
              (case map_of (attendance s) dateStr of None \<Rightarrow> [] | Some d \<Rightarrow> records d))"
  using setDoc_merge_payload[OF assms]
  by (simp add: handleSaveAll_def Let_def update_conv')

lemma mark_attendee_other:
  "chosen_status attendanceData k = None \<or> k \<noteq> fst a \<Longrightarrow>
     map_of (mark_attendee dateStr now attendanceData a xs) k = map_of xs k"
  by (auto simp: mark_attendee_def chosen_status_def update_conv' split: option.splits)

lemma fold_mark_other:
  "chosen_status attendanceData k = None \<or> k \<notin> fst ` set as \<Longrightarrow>
     map_of (fold (mark_attendee dateStr now attendanceData) as xs) k = map_of xs k"
proof (induction as arbitrary: xs)
  case Nil
  show ?case by simp
next
  case (Cons a as)
  have "map_of (fold (mark_attendee dateStr now attendanceData) as
          (mark_attendee dateStr now attendanceData a xs)) k
        = map_of (mark_attendee dateStr now attendanceData a xs) k"
    using Cons.prems by (intro Cons.IH) auto
  also have "\<dots> = map_of xs k"
    using Cons.prems by (intro mark_attendee_other) auto
  finally show ?case by simp
qed

lemma fold_mark_chosen:
  assumes "distinct (map fst as)" and "a \<in> set as"
    and "map_of attendanceData (fst a) = Some e" and "status_edit e = Some st"
  shows "map_of (fold (mark_attendee dateStr now attendanceData) as xs) (fst a) =
     Some \<lparr> id_rec = dateStr @ ''_'' @ fst a,
            studentId_rec = fst a,
            studentName_rec = name (snd a),
            email_rec = email (snd a),
            date_rec = dateStr,
            status_rec = st,
            note_rec = Some (case note_edit e of None \<Rightarrow> '''' | Some n \<Rightarrow> n),
            updatedAt_rec = now \<rparr>"
  using assms(1,2)
proof (induction as arbitrary: xs)
  case Nil
  then show ?case by simp
next
  case (Cons b as)
  show ?case
  proof (cases "a = b")
    case True
    have "fst a \<notin> fst ` set as" using Cons.prems(1) True by simp
    then have "map_of (fold (mark_attendee dateStr now attendanceData) as
                  (mark_attendee dateStr now attendanceData b xs)) (fst a)
               = map_of (mark_attendee dateStr now attendanceData b xs) (fst a)"
      by (intro fold_mark_other) simp
    moreover have "map_of (mark_attendee dateStr now attendanceData b xs) (fst a) =
       Some \<lparr> id_rec = dateStr @ ''_'' @ fst a,
              studentId_rec = fst a,
              studentName_rec = name (snd a),
              email_rec = email (snd a),
              date_rec = dateStr,
              status_rec = st,
              note_rec = Some (case note_edit e of None \<Rightarrow> '''' | Some n \<Rightarrow> n),
              updatedAt_rec = now \<rparr>"
      using True assms(3,4) by (simp add: mark_attendee_def update_conv')
    ultimately show ?thesis by simp
  next
    case False
    then have "a \<in> set as" using Cons.prems(2) by simp
    moreover have "distinct (map fst as)" using Cons.prems(1) by simp
    ultimately show ?thesis using Cons.IH by simp
  qed
qed

lemma count_summary_tally:
  "present (count_summary recs) = length (filter (\<lambda>r. status_rec r = Present) (map snd recs))"
  "absent (count_summary recs) = length (filter (\<lambda>r. status_rec r = Absent) (map snd recs))"
  "leave (count_summary recs) = length (filter (\<lambda>r. status_rec r = Leave) (map snd recs))"
  "total (count_summary recs) = length recs"
  by (simp_all add: count_summary_def fold_tally)

lemmas attendance_eval =
  handleSaveAll_def docPayload_def mark_attendee_def count_summary_def tally_def
  setDoc_merge_def merge_entry_def merge_record_def Let_def

text \<open>
  Claim C1. After \<^verbatim>\<open>handleSaveAll\<close> the day document holds a summary that is the tally of
  its records: \<open>present\<close>, \<open>absent\<close> and \<open>leave\<close> count the records with that status,
  \<open>total\<close> is the number of records, and the three counts add up to it. This holds for
  every store, roster and edit set; the keys of the records already stored are distinct,
  as the keys of a map are.
\<close>

theorem handleSaveAll_summary_tally:
  assumes "\<forall>d. map_of (attendance s) dateStr = Some d \<longrightarrow> distinct (map fst (records d))"
  shows "\<exists>doc. map_of (attendance (handleSaveAll dateStr now attendeeList attendanceData s)) dateStr
                 = Some doc
     \<and> present (summary doc) = length (filter (\<lambda>r. status_rec r = Present) (map snd (records doc)))
     \<and> absent (summary doc) = length (filter (\<lambda>r. status_rec r = Absent) (map snd (records doc)))
     \<and> leave (summary doc) = length (filter (\<lambda>r. status_rec r = Leave) (map snd (records doc)))
     \<and> total (summary doc) = length (records doc)
     \<and> present (summary doc) + absent (summary doc) + leave (summary doc) = length (records doc)"
proof -
  let ?doc = "docPayload dateStr now attendeeList attendanceData
                (case map_of (attendance s) dateStr of None \<Rightarrow> [] | Some d \<Rightarrow> records d)"
  have st: "map_of (attendance (handleSaveAll dateStr now attendeeList attendanceData s)) dateStr
              = Some ?doc"
    using assms by (rule handleSaveAll_stored)
  have s: "summary ?doc = count_summary (records ?doc)"
    by (simp add: docPayload_def Let_def)
  have p: "present (summary ?doc)
             = length (filter (\<lambda>r. status_rec r = Present) (map snd (records ?doc)))"
    and a: "absent (summary ?doc)
             = length (filter (\<lambda>r. status_rec r = Absent) (map snd (records ?doc)))"
    and l: "leave (summary ?doc)
             = length (filter (\<lambda>r. status_rec r = Leave) (map snd (records ?doc)))"
    and t: "total (summary ?doc) = length (records ?doc)"
    unfolding s by (rule count_summary_tally)+
  have "present (summary ?doc) + absent (summary ?doc) + leave (summary ?doc)
          = length (map snd (records ?doc))"
    unfolding p a l by (rule status_partition)
  then have sum: "present (summary ?doc) + absent (summary ?doc) + leave (summary ?doc)
          = length (records ?doc)" by simp
  show ?thesis
    using st p a l t sum by (intro exI[of _ ?doc] conjI)
qed

theorem handleSaveAll_summary_tally_witness:
  "distinct (map fst (records monday))
   \<and> (\<exists>doc. map_of (attendance
                (handleSaveAll ''2024-01-15'' 7 [ann, bob, cy] monday_edits monday_store))
              ''2024-01-15'' = Some doc
        \<and> summary doc = \<lparr>present = 1, absent = 1, leave = 0, total = 2\<rparr>
        \<and> map fst (records doc) = [''s1'', ''s2'']
        \<and> present (summary doc) + absent (summary doc) + leave (summary doc)
            = length (records doc))"
proof -
  have h: "\<forall>d. map_of (attendance monday_store) ''2024-01-15'' = Some d
        \<longrightarrow> distinct (map fst (records d))"
    by simp
  from handleSaveAll_summary_tally [OF h, of 7 "[ann, bob, cy]" monday_edits]
  show ?thesis
    by (simp add: attendance_eval)
qed

text \<open>
  Claim C2. \<^verbatim>\<open>handleSaveAll\<close> merges the edits into the stored day document: under an id
  with no chosen status (or outside the roster) the document holds what it held before, a
  record unchanged or none at all; under the id of a roster member with a chosen status it
  holds the record built from the edit.
\<close>

theorem handleSaveAll_merges:
  assumes "\<forall>d. map_of (attendance s) dateStr = Some d \<longrightarrow> distinct (map fst (records d))"
    and "distinct (map fst attendeeList)"
  shows "\<exists>doc. map_of (attendance (handleSaveAll dateStr now attendeeList attendanceData s)) dateStr
                 = Some doc
     \<and> (\<forall>k. chosen_status attendanceData k = None \<or> k \<notin> fst ` set attendeeList \<longrightarrow>
            map_of (records doc) k =
              (case map_of (attendance s) dateStr of None \<Rightarrow> None | Some d \<Rightarrow> map_of (records d) k))
     \<and> (\<forall>a \<in> set attendeeList. \<forall>e st.
            map_of attendanceData (fst a) = Some e \<and> status_edit e = Some st \<longrightarrow>
            map_of (records doc) (fst a) =
              Some \<lparr> id_rec = dateStr @ ''_'' @ fst a,
                     studentId_rec = fst a,
                     studentName_rec = name (snd a),
                     email_rec = email (snd a),
                     date_rec = dateStr,
                     status_rec = st,
                     note_rec = Some (case note_edit e of None \<Rightarrow> '''' | Some n \<Rightarrow> n),
                     updatedAt_rec = now \<rparr>)"
proof -
  let ?ex = "case map_of (attendance s) dateStr of None \<Rightarrow> [] | Some d \<Rightarrow> records d"
  let ?doc = "docPayload dateStr now attendeeList attendanceData ?ex"
  have st: "map_of (attendance (handleSaveAll dateStr now attendeeList attendanceData s)) dateStr
              = Some ?doc"
    using assms(1) by (rule handleSaveAll_stored)
  have r: "records ?doc = fold (mark_attendee dateStr now attendanceData) attendeeList ?ex"
    by (simp add: docPayload_def Let_def)
  have ex: "map_of ?ex k =
      (case map_of (attendance s) dateStr of None \<Rightarrow> None | Some d \<Rightarrow> map_of (records d) k)" for k
    by (simp split: option.splits)
  have keep: "\<forall>k. chosen_status attendanceData k = None \<or> k \<notin> fst ` set attendeeList \<longrightarrow>
            map_of (records ?doc) k =
              (case map_of (attendance s) dateStr of None \<Rightarrow> None | Some d \<Rightarrow> map_of (records d) k)"
    unfolding r ex[symmetric] by (intro allI impI fold_mark_other)
  have ups: "\<forall>a \<in> set attendeeList. \<forall>e st.
            map_of attendanceData (fst a) = Some e \<and> status_edit e = Some st \<longrightarrow>
            map_of (records ?doc) (fst a) =
              Some \<lparr> id_rec = dateStr @ ''_'' @ fst a,
                     studentId_rec = fst a,
                     studentName_rec = name (snd a),
                     email_rec = email (snd a),
                     date_rec = dateStr,
                     status_rec = st,
                     note_rec = Some (case note_edit e of None \<Rightarrow> '''' | Some n \<Rightarrow> n),
                     updatedAt_rec = now \<rparr>"
    unfolding r
  proof (intro ballI allI impI)
    fix a e st
    assume "a \<in> set attendeeList"
      and "map_of attendanceData (fst a) = Some e \<and> status_edit e = Some st"
    then show "map_of (fold (mark_attendee dateStr now attendanceData) attendeeList ?ex) (fst a) =
              Some \<lparr> id_rec = dateStr @ ''_'' @ fst a,
                     studentId_rec = fst a,
                     studentName_rec = name (snd a),
                     email_rec = email (snd a),
                     date_rec = dateStr,
                     status_rec = st,
                     note_rec = Some (case note_edit e of None \<Rightarrow> '''' | Some n \<Rightarrow> n),
                     updatedAt_rec = now \<rparr>"
      using assms(2) by (intro fold_mark_chosen) simp_all
  qed
  show ?thesis using st keep ups by (intro exI[of _ ?doc] conjI)
qed

theorem handleSaveAll_merges_witness:
  "distinct (map fst (records monday)) \<and> distinct (map fst [ann, bob, cy])
   \<and> (\<exists>doc. map_of (attendance
                (handleSaveAll ''2024-01-15'' 7 [ann, bob, cy] monday_edits monday_store))
              ''2024-01-15'' = Some doc
        \<and> map_of (records doc) ''s1'' = Some ann_present
        \<and> map_of (records doc) ''s3'' = None
        \<and> map_of (records doc) ''s2'' =
              Some \<lparr> id_rec = ''2024-01-15_s2'', studentId_rec = ''s2'',
                     studentName_rec = ''Bob'', email_rec = ''bob@x.com'',
                     date_rec = ''2024-01-15'', status_rec = Absent,
                     note_rec = Some ''ill'', updatedAt_rec = 7 \<rparr>)"
proof -
  have h1: "\<forall>d. map_of (attendance monday_store) ''2024-01-15'' = Some d
        \<longrightarrow> distinct (map fst (records d))"
    by simp
  have h2: "distinct (map fst [ann, bob, cy])"
    by simp
  from handleSaveAll_merges [OF h1 h2, of 7 monday_edits]
  obtain doc where
    st: "map_of (attendance
           (handleSaveAll ''2024-01-15'' 7 [ann, bob, cy] monday_edits monday_store))
         ''2024-01-15'' = Some doc"
    and keep: "\<forall>k. chosen_status monday_edits k = None \<or> k \<notin> fst ` set [ann, bob, cy] \<longrightarrow>
            map_of (records doc) k =
              (case map_of (attendance monday_store) ''2024-01-15'' of
                 None \<Rightarrow> None | Some d \<Rightarrow> map_of (records d) k)"
    and ups: "\<forall>a \<in> set [ann, bob, cy]. \<forall>e st.
            map_of monday_edits (fst a) = Some e \<and> status_edit e = Some st \<longrightarrow>
            map_of (records doc) (fst a) =
              Some \<lparr> id_rec = ''2024-01-15'' @ ''_'' @ fst a,
                     studentId_rec = fst a,
                     studentName_rec = name (snd a),
                     email_rec = email (snd a),
                     date_rec = ''2024-01-15'',
                     status_rec = st,
                     note_rec = Some (case note_edit e of None \<Rightarrow> '''' | Some n \<Rightarrow> n),
                     updatedAt_rec = 7 \<rparr>"
    by blast
  have k1: "map_of (records doc) ''s1'' = Some ann_present"
    using keep [rule_format, of "''s1''"] by (simp add: chosen_status_def)
  have k3: "map_of (records doc) ''s3'' = None"
    using keep [rule_format, of "''s3''"] by (simp add: chosen_status_def)
  have k2: "map_of (records doc) ''s2'' =
              Some \<lparr> id_rec = ''2024-01-15_s2'', studentId_rec = ''s2'',
                     studentName_rec = ''Bob'', email_rec = ''bob@x.com'',
                     date_rec = ''2024-01-15'', status_rec = Absent,
                     note_rec = Some ''ill'', updatedAt_rec = 7 \<rparr>"
    using ups [rule_format, of bob "\<lparr>status_edit = Some Absent, note_edit = Some ''ill''\<rparr>" Absent]
    by simp
  show ?thesis using h2 st k1 k2 k3 by simp
qed

subsection \<open>The roster\<close>

lemma update_mem: "(k, v) \<in> set (AList.update k v al)"
  by (induction al) auto

lemma filter_nonempty_iff: "filter P xs \<noteq> [] \<longleftrightarrow> (\<exists>x \<in> set xs. P x)"
  by (simp add: filter_empty_conv)

lemma onSubmit_add_fails_iff:
  "fst (AttendeeForm_onSubmit None newId now data s) = Some DuplicateEmail
     \<longleftrightarrow> (\<exists>d \<in> set (attendees s). email (snd d) = email_v data)
         \<or> (\<exists>d \<in> set (deleted_attendees s). email (snd d) = email_v data)"
proof -
  let ?A = "filter (\<lambda>d. email (snd d) = email_v data) (attendees s)"
  let ?D = "filter (\<lambda>d. email (snd d) = email_v data) (deleted_attendees s)"
  have "fst (AttendeeForm_onSubmit None newId now data s) = Some DuplicateEmail
          \<longleftrightarrow> ?A \<noteq> [] \<or> ?D \<noteq> []"
    by (cases ?A) (simp_all add: AttendeeForm_onSubmit_def Let_def)
  then show ?thesis unfolding filter_nonempty_iff .
qed

lemma onSubmit_add_result:
  "AttendeeForm_onSubmit None newId now data s =
     (if fst (AttendeeForm_onSubmit None newId now data s) = Some DuplicateEmail
      then (Some DuplicateEmail, s)
      else (None, s\<lparr>attendees := attendees s @
               [(newId, \<lparr>name = name_v data, email = email_v data,
                         createdAt = Some now, restoredAt = None\<rparr>)]\<rparr>))"
  by (cases "filter (\<lambda>d. email (snd d) = email_v data) (attendees s)")
     (simp_all add: AttendeeForm_onSubmit_def Let_def)

lemma handleRestore_blocked:
  "\<exists>d \<in> set (attendees s). email (snd d) = email (snd a) \<Longrightarrow>
     handleRestore now a s = (Some DuplicateEmail, s)"
  by (simp add: handleRestore_def Let_def filter_nonempty_iff)

lemma handleRestore_free:
  assumes "\<not> (\<exists>d \<in> set (attendees s). email (snd d) = email (snd a))"
  shows "handleRestore now a s =
     (None,
      s\<lparr>attendees :=
          AList.update (if originalId (snd a) \<noteq> [] then originalId (snd a) else fst a)
            \<lparr>name = name (snd a), email = email (snd a),
             createdAt = (case createdAt (snd a) of Some c \<Rightarrow> Some c | None \<Rightarrow> Some now),
             restoredAt = Some now\<rparr>
            (attendees s),
        deleted_attendees := AList.delete (fst a) (deleted_attendees s)\<rparr>)"
proof -
  have "filter (\<lambda>d. email (snd d) = email (snd a)) (attendees s) = []"
    using assms by (simp add: filter_empty_conv)
  then show ?thesis by (simp add: handleRestore_def Let_def)
qed

text \<open>
  Claim C3. Adding an attendee fails with \<open>DuplicateEmail\<close> exactly when the e-mail of the
  form equals, as a string, the e-mail of an active or of an archived attendee, and then
  nothing is written; otherwise the new attendee is appended to the active collection.
  After any attendee with that e-mail has been soft-deleted, adding it fails as well.
\<close>

theorem add_duplicate_email:
  "(fst (AttendeeForm_onSubmit None newId now data s) = Some DuplicateEmail
      \<longleftrightarrow> (\<exists>d \<in> set (attendees s). email (snd d) = email_v data)
          \<or> (\<exists>d \<in> set (deleted_attendees s). email (snd d) = email_v data))
   \<and> (fst (AttendeeForm_onSubmit None newId now data s) = Some DuplicateEmail
        \<longrightarrow> snd (AttendeeForm_onSubmit None newId now data s) = s)
   \<and> (fst (AttendeeForm_onSubmit None newId now data s) \<noteq> Some DuplicateEmail
        \<longrightarrow> AttendeeForm_onSubmit None newId now data s =
             (None, s\<lparr>attendees := attendees s @
                [(newId, \<lparr>name = name_v data, email = email_v data,
                          createdAt = Some now, restoredAt = None\<rparr>)]\<rparr>))
   \<and> (email (snd attendee) = email_v data
        \<longrightarrow> fst (AttendeeForm_onSubmit None newId now data (handleSoftDelete tdel attendee s))
             = Some DuplicateEmail)"
proof (intro conjI impI)
  show "fst (AttendeeForm_onSubmit None newId now data s) = Some DuplicateEmail
      \<longleftrightarrow> (\<exists>d \<in> set (attendees s). email (snd d) = email_v data)
          \<or> (\<exists>d \<in> set (deleted_attendees s). email (snd d) = email_v data)"
    by (rule onSubmit_add_fails_iff)
next
  assume "fst (AttendeeForm_onSubmit None newId now data s) = Some DuplicateEmail"
  then show "snd (AttendeeForm_onSubmit None newId now data s) = s"
    by (subst onSubmit_add_result) simp
next
  assume "fst (AttendeeForm_onSubmit None newId now data s) \<noteq> Some DuplicateEmail"
  then show "AttendeeForm_onSubmit None newId now data s =
             (None, s\<lparr>attendees := attendees s @
                [(newId, \<lparr>name = name_v data, email = email_v data,
                          createdAt = Some now, restoredAt = None\<rparr>)]\<rparr>)"
    by (subst onSubmit_add_result) simp
next
  assume e: "email (snd attendee) = email_v data"
  let ?arch = "\<lparr>name = name (snd attendee), email = email (snd attendee),
            createdAt = createdAt (snd attendee), restoredAt = restoredAt (snd attendee),
            originalId = fst attendee, deletedAt = tdel\<rparr>"
  have "(fst attendee, ?arch) \<in> set (deleted_attendees (handleSoftDelete tdel attendee s))"
    by (simp add: handleSoftDelete_def update_mem)
  moreover have "email (snd (fst attendee, ?arch)) = email_v data" using e by simp
  ultimately have "\<exists>d \<in> set (deleted_attendees (handleSoftDelete tdel attendee s)).
                      email (snd d) = email_v data"
    by blast
  then show "fst (AttendeeForm_onSubmit None newId now data (handleSoftDelete tdel attendee s))
             = Some DuplicateEmail"
    unfolding onSubmit_add_fails_iff by blast
qed

theorem add_duplicate_email_witness:
  "fst (AttendeeForm_onSubmit None ''n1'' 9
          \<lparr>name_v = ''Ann B'', email_v = ''ann@x.com''\<rparr> monday_store) = Some DuplicateEmail
   \<and> filter (\<lambda>d. email (snd d) = ''ann@x.com'')
        (attendees (handleSoftDelete 5 ann monday_store)) = []
   \<and> fst (AttendeeForm_onSubmit None ''n1'' 9
          \<lparr>name_v = ''Ann B'', email_v = ''ann@x.com''\<rparr>
          (handleSoftDelete 5 ann monday_store)) = Some DuplicateEmail
   \<and> AttendeeForm_onSubmit None ''n1'' 9
          \<lparr>name_v = ''Ann B'', email_v = ''Ann@x.com''\<rparr> monday_store
       = (None, monday_store\<lparr>attendees :=
            [ann, bob, cy,
             (''n1'', \<lparr>name = ''Ann B'', email = ''Ann@x.com'',
                       createdAt = Some 9, restoredAt = None\<rparr>)]\<rparr>)"
proof -
  note t1 = add_duplicate_email
    [where newId = "''n1''" and now = 9 and s = monday_store and attendee = ann and tdel = 5
       and data = "\<lparr>name_v = ''Ann B'', email_v = ''ann@x.com''\<rparr>"]
  note t2 = add_duplicate_email
    [where newId = "''n1''" and now = 9 and s = monday_store and attendee = ann and tdel = 5
       and data = "\<lparr>name_v = ''Ann B'', email_v = ''Ann@x.com''\<rparr>"]
  have a: "fst (AttendeeForm_onSubmit None ''n1'' 9
          \<lparr>name_v = ''Ann B'', email_v = ''ann@x.com''\<rparr> monday_store) = Some DuplicateEmail"
    using t1 [THEN conjunct1] by simp
  have b: "filter (\<lambda>d. email (snd d) = ''ann@x.com'')
        (attendees (handleSoftDelete 5 ann monday_store)) = []"
    by (simp add: handleSoftDelete_def)
  have c: "fst (AttendeeForm_onSubmit None ''n1'' 9
          \<lparr>name_v = ''Ann B'', email_v = ''ann@x.com''\<rparr>
          (handleSoftDelete 5 ann monday_store)) = Some DuplicateEmail"
    using t1 [THEN conjunct2, THEN conjunct2, THEN conjunct2] by simp
  have "fst (AttendeeForm_onSubmit None ''n1'' 9
          \<lparr>name_v = ''Ann B'', email_v = ''Ann@x.com''\<rparr> monday_store) \<noteq> Some DuplicateEmail"
    using t2 [THEN conjunct1] by simp
  then have d: "AttendeeForm_onSubmit None ''n1'' 9
          \<lparr>name_v = ''Ann B'', email_v = ''Ann@x.com''\<rparr> monday_store
       = (None, monday_store\<lparr>attendees :=
            [ann, bob, cy,
             (''n1'', \<lparr>name = ''Ann B'', email = ''Ann@x.com'',
                       createdAt = Some 9, restoredAt = None\<rparr>)]\<rparr>)"
    using t2 [THEN conjunct2, THEN conjunct2, THEN conjunct1] by simp
  show ?thesis using a b c d by (intro conjI)
qed

text \<open>
  Claim C4. Restoring an archived attendee fails with \<open>DuplicateEmail\<close> and leaves the
  store as it is when an active attendee has the archived e-mail. Otherwise the active
  document is written under \<^verbatim>\<open>originalId || id\<close> with the archived name and e-mail, the
  archive document is removed, and no other document changes. The archive document that
  soft delete writes carries the attendee's id as \<open>originalId\<close>, so restoring it brings the
  attendee back under the id it had before deletion.
\<close>

theorem restore_duplicate_email:
  "((\<exists>d \<in> set (attendees s). email (snd d) = email (snd a))
      \<longrightarrow> handleRestore now a s = (Some DuplicateEmail, s))
   \<and> (\<not> (\<exists>d \<in> set (attendees s). email (snd d) = email (snd a))
      \<longrightarrow> fst (handleRestore now a s) = None
        \<and> map_of (attendees (snd (handleRestore now a s)))
             (if originalId (snd a) \<noteq> [] then originalId (snd a) else fst a)
            = Some \<lparr>name = name (snd a), email = email (snd a),
                    createdAt = (case createdAt (snd a) of Some c \<Rightarrow> Some c | None \<Rightarrow> Some now),
                    restoredAt = Some now\<rparr>
        \<and> map_of (deleted_attendees (snd (handleRestore now a s))) (fst a) = None
        \<and> (\<forall>k. k \<noteq> (if originalId (snd a) \<noteq> [] then originalId (snd a) else fst a)
              \<longrightarrow> map_of (attendees (snd (handleRestore now a s))) k = map_of (attendees s) k)
        \<and> (\<forall>k. k \<noteq> fst a
              \<longrightarrow> map_of (deleted_attendees (snd (handleRestore now a s))) k
                  = map_of (deleted_attendees s) k))
   \<and> map_of (deleted_attendees (handleSoftDelete tdel (kid, sdoc) s)) kid
        = Some \<lparr>name = name sdoc, email = email sdoc, createdAt = createdAt sdoc,
                restoredAt = restoredAt sdoc, originalId = kid, deletedAt = tdel\<rparr>
   \<and> (\<not> (\<exists>d \<in> set (attendees (handleSoftDelete tdel (kid, sdoc) s)). email (snd d) = email sdoc)
      \<longrightarrow> fst (handleRestore now
                 (kid, \<lparr>name = name sdoc, email = email sdoc, createdAt = createdAt sdoc,
                       restoredAt = restoredAt sdoc, originalId = kid, deletedAt = tdel\<rparr>)
                 (handleSoftDelete tdel (kid, sdoc) s)) = None
        \<and> map_of (attendees (snd (handleRestore now
                 (kid, \<lparr>name = name sdoc, email = email sdoc, createdAt = createdAt sdoc,
                       restoredAt = restoredAt sdoc, originalId = kid, deletedAt = tdel\<rparr>)
                 (handleSoftDelete tdel (kid, sdoc) s)))) kid
            = Some \<lparr>name = name sdoc, email = email sdoc,
                    createdAt = (case createdAt sdoc of Some c \<Rightarrow> Some c | None \<Rightarrow> Some now),
                    restoredAt = Some now\<rparr>
        \<and> map_of (deleted_attendees (snd (handleRestore now
                 (kid, \<lparr>name = name sdoc, email = email sdoc, createdAt = createdAt sdoc,
                       restoredAt = restoredAt sdoc, originalId = kid, deletedAt = tdel\<rparr>)
                 (handleSoftDelete tdel (kid, sdoc) s)))) kid = None)"
proof (intro conjI impI)
  assume "\<exists>d \<in> set (attendees s). email (snd d) = email (snd a)"
  then show "handleRestore now a s = (Some DuplicateEmail, s)"
    by (rule handleRestore_blocked)
next
  assume f: "\<not> (\<exists>d \<in> set (attendees s). email (snd d) = email (snd a))"
  note r = handleRestore_free [OF f, of now]
  show "fst (handleRestore now a s) = None" by (simp add: r)
  show "map_of (attendees (snd (handleRestore now a s)))
             (if originalId (snd a) \<noteq> [] then originalId (snd a) else fst a)
            = Some \<lparr>name = name (snd a), email = email (snd a),
                    createdAt = (case createdAt (snd a) of Some c \<Rightarrow> Some c | None \<Rightarrow> Some now),
                    restoredAt = Some now\<rparr>"
    by (simp add: r update_conv')
  show "map_of (deleted_attendees (snd (handleRestore now a s))) (fst a) = None"
    by (simp add: r delete_conv')
  show "\<forall>k. k \<noteq> (if originalId (snd a) \<noteq> [] then originalId (snd a) else fst a)
              \<longrightarrow> map_of (attendees (snd (handleRestore now a s))) k = map_of (attendees s) k"
    by (simp add: r update_conv')
  show "\<forall>k. k \<noteq> fst a
              \<longrightarrow> map_of (deleted_attendees (snd (handleRestore now a s))) k
                  = map_of (deleted_attendees s) k"
    by (simp add: r delete_conv')
next
  show "map_of (deleted_attendees (handleSoftDelete tdel (kid, sdoc) s)) kid
        = Some \<lparr>name = name sdoc, email = email sdoc, createdAt = createdAt sdoc,
                restoredAt = restoredAt sdoc, originalId = kid, deletedAt = tdel\<rparr>"
    by (simp add: handleSoftDelete_def update_conv')
next
  let ?ar = "(kid, \<lparr>name = name sdoc, email = email sdoc, createdAt = createdAt sdoc,
                       restoredAt = restoredAt sdoc, originalId = kid, deletedAt = tdel\<rparr>)"
  let ?s1 = "handleSoftDelete tdel (kid, sdoc) s"
  assume "\<not> (\<exists>d \<in> set (attendees ?s1). email (snd d) = email sdoc)"
  then have f: "\<not> (\<exists>d \<in> set (attendees ?s1). email (snd d) = email (snd ?ar))" by simp
  note r = handleRestore_free [OF f, of now]
  show "fst (handleRestore now ?ar ?s1) = None" by (simp add: r)
  show "map_of (attendees (snd (handleRestore now ?ar ?s1))) kid
            = Some \<lparr>name = name sdoc, email = email sdoc,
                    createdAt = (case createdAt sdoc of Some c \<Rightarrow> Some c | None \<Rightarrow> Some now),
                    restoredAt = Some now\<rparr>"
    by (simp add: r update_conv')
  show "map_of (deleted_attendees (snd (handleRestore now ?ar ?s1))) kid = None"
    by (simp add: r delete_conv')
qed

theorem restore_duplicate_email_witness:
  "handleRestore 8 ann_archived blocked_store = (Some DuplicateEmail, blocked_store)
   \<and> map_of (deleted_attendees (handleSoftDelete 5 ann monday_store)) ''s1''
       = Some (snd ann_archived)
   \<and> fst (handleRestore 8 ann_archived (handleSoftDelete 5 ann monday_store)) = None
   \<and> map_of (attendees (snd (handleRestore 8 ann_archived (handleSoftDelete 5 ann monday_store))))
        ''s1''
       = Some \<lparr>name = ''Ann'', email = ''ann@x.com'', createdAt = Some 1, restoredAt = Some 8\<rparr>
   \<and> map_of (deleted_attendees
        (snd (handleRestore 8 ann_archived (handleSoftDelete 5 ann monday_store)))) ''s1'' = None"
proof -
  note t1 = restore_duplicate_email
    [where s = blocked_store and a = ann_archived and now = 8, THEN conjunct1]
  note t2 = restore_duplicate_email
    [where s = monday_store and kid = "''s1''" and sdoc = "snd ann" and tdel = 5 and now = 8,
     THEN conjunct2, THEN conjunct2]
  have a: "handleRestore 8 ann_archived blocked_store = (Some DuplicateEmail, blocked_store)"
    using t1 by simp
  have b: "map_of (deleted_attendees (handleSoftDelete 5 ann monday_store)) ''s1''
       = Some (snd ann_archived)"
    using t2 [THEN conjunct1] by simp
  have free: "\<not> (\<exists>d \<in> set (attendees (handleSoftDelete 5 ann monday_store)).
                  email (snd d) = email (snd ann))"
    by (simp add: handleSoftDelete_def)
  have c: "fst (handleRestore 8 ann_archived (handleSoftDelete 5 ann monday_store)) = None
   \<and> map_of (attendees (snd (handleRestore 8 ann_archived (handleSoftDelete 5 ann monday_store))))
        ''s1''
       = Some \<lparr>name = ''Ann'', email = ''ann@x.com'', createdAt = Some 1, restoredAt = Some 8\<rparr>
   \<and> map_of (deleted_attendees
        (snd (handleRestore 8 ann_archived (handleSoftDelete 5 ann monday_store)))) ''s1'' = None"
    using t2 [THEN conjunct2] free by simp
  show ?thesis using a b c by (intro conjI) simp_all
qed

subsection \<open>The assignment tracker\<close>



lemma stamp1_idem: "stamp1 loaded now k (stamp1 loaded now k c) = stamp1 loaded now k c"
  by (simp add: stamp1_def)

lemma stamp_changed_lookup:
  "map_of (stamp_changed loaded now x m) k =
     (if k = x then map_option (stamp1 loaded now k) (map_of m k) else map_of m k)"
  by (auto simp: stamp_changed_def stamp1_def Let_def update_conv' split: option.splits)

lemma stamp1_twice:
  "map_option (stamp1 loaded now k) (map_option (stamp1 loaded now k) v)
     = map_option (stamp1 loaded now k) v"
  by (cases v) (simp_all add: stamp1_idem)

lemma fold_stamp_lookup:
  "map_of (fold (stamp_changed loaded now) ks m) k =
     (if k \<in> set ks then map_option (stamp1 loaded now k) (map_of m k) else map_of m k)"
proof (induction ks arbitrary: m)
  case Nil
  show ?case by simp
next
  case (Cons x ks)
  have "map_of (fold (stamp_changed loaded now) (x # ks) m) k
        = map_of (fold (stamp_changed loaded now) ks (stamp_changed loaded now x m)) k"
    by simp
  also have "\<dots> = (if k \<in> set ks
                    then map_option (stamp1 loaded now k) (map_of (stamp_changed loaded now x m) k)
                    else map_of (stamp_changed loaded now x m) k)"
    by (rule Cons.IH)
  also have "\<dots> = (if k \<in> set (x # ks)
                    then map_option (stamp1 loaded now k) (map_of m k) else map_of m k)"
    by (simp add: stamp_changed_lookup stamp1_twice)
  finally show ?case .
qed

lemma stamp_all_lookup:
  "map_of (fold (stamp_changed loaded now) (map fst m) m) k =
     map_option (stamp1 loaded now k) (map_of m k)"
proof (cases "k \<in> fst ` set m")
  case True
  then show ?thesis by (simp add: fold_stamp_lookup)
next
  case False
  then have "map_of m k = None" by (rule map_of_fresh)
  then show ?thesis using False by (simp add: fold_stamp_lookup)
qed

lemma sync_attendee_count: "snd acc \<le> snd (sync_attendee now a acc)"
  by (simp add: sync_attendee_def)

lemma fold_sync_count: "snd acc \<le> snd (fold (sync_attendee now) as acc)"
proof (induction as arbitrary: acc)
  case Nil
  show ?case by simp
next
  case (Cons a as)
  have "snd acc \<le> snd (sync_attendee now a acc)" by (rule sync_attendee_count)
  also have "\<dots> \<le> snd (fold (sync_attendee now) as (sync_attendee now a acc))" by (rule Cons.IH)
  finally show ?case by simp
qed

lemma fold_sync_present:
  "\<forall>a \<in> set as. map_of (fst acc) (fst a) \<noteq> None \<Longrightarrow> fold (sync_attendee now) as acc = acc"
proof (induction as arbitrary: acc)
  case Nil
  show ?case by simp
next
  case (Cons a as)
  have s: "sync_attendee now a acc = acc" using Cons.prems by (auto simp: sync_attendee_def)
  have "fold (sync_attendee now) as acc = acc" using Cons.prems by (intro Cons.IH) simp
  then show ?case by (simp add: s)
qed

lemma fold_sync_unchanged:
  "snd (fold (sync_attendee now) as acc) = snd acc \<Longrightarrow>
     \<forall>a \<in> set as. map_of (fst acc) (fst a) \<noteq> None"
proof (induction as arbitrary: acc)
  case Nil
  show ?case by simp
next
  case (Cons a as)
  show ?case
  proof (cases "map_of (fst acc) (fst a) = None")
    case True
    then have "snd (sync_attendee now a acc) = snd acc + 1" by (simp add: sync_attendee_def)
    moreover have "snd (sync_attendee now a acc)
                     \<le> snd (fold (sync_attendee now) as (sync_attendee now a acc))"
      by (rule fold_sync_count)
    ultimately show ?thesis using Cons.prems by simp
  next
    case False
    then have s: "sync_attendee now a acc = acc" by (auto simp: sync_attendee_def)
    then have "\<forall>a \<in> set as. map_of (fst acc) (fst a) \<noteq> None"
      using Cons.prems Cons.IH [of acc] by simp
    then show ?thesis using False by simp
  qed
qed

lemma sync_attendee_lookup:
  "map_of (fst (sync_attendee now a acc)) k =
     (case map_of (fst acc) k of
        Some e \<Rightarrow> Some e
      | None \<Rightarrow> if fst a = k then Some (assigned_entry now a) else None)"
  by (auto simp: sync_attendee_def update_conv' split: option.splits)

lemma fold_sync_lookup:
  "map_of (fst (fold (sync_attendee now) as acc)) k =
     (case map_of (fst acc) k of
        Some e \<Rightarrow> Some e
      | None \<Rightarrow> map_option (assigned_entry now) (find (\<lambda>a. fst a = k) as))"
proof (induction as arbitrary: acc)
  case Nil
  show ?case by (simp split: option.splits)
next
  case (Cons a as)
  have "map_of (fst (fold (sync_attendee now) (a # as) acc)) k
        = map_of (fst (fold (sync_attendee now) as (sync_attendee now a acc))) k"
    by simp
  also have "\<dots> = (case map_of (fst (sync_attendee now a acc)) k of
        Some e \<Rightarrow> Some e
      | None \<Rightarrow> map_option (assigned_entry now) (find (\<lambda>a. fst a = k) as))"
    by (rule Cons.IH)
  also have "\<dots> = (case map_of (fst acc) k of
        Some e \<Rightarrow> Some e
      | None \<Rightarrow> map_option (assigned_entry now) (find (\<lambda>a. fst a = k) (a # as)))"
    by (simp add: sync_attendee_lookup split: option.splits)
  finally show ?case .
qed




lemma stamp1_assigned:
  "map_option (stamp1 loaded now k) (map_option (assigned_entry now) v)
     = map_option (assigned_entry now) v"
  by (cases v) (simp_all add: stamp1_def assigned_entry_def)

text \<open>The three outcomes of a sync.\<close>

lemma sync_nothing_missing:
  assumes "snd (fold (sync_attendee now) (attendees (snd ps)) (statusMap_p (fst ps), 0)) = 0"
  shows "handleSyncAttendees id_a now ps = ps"
  using assms by (simp add: handleSyncAttendees_def Let_def)

lemma sync_document_gone:
  assumes "snd (fold (sync_attendee now) (attendees (snd ps)) (statusMap_p (fst ps), 0)) \<noteq> 0"
    and "map_of (assignments (snd ps)) id_a = None"
  shows "handleSyncAttendees id_a now ps =
     ((fst ps)\<lparr>statusMap_p :=
         fst (fold (sync_attendee now) (attendees (snd ps)) (statusMap_p (fst ps), 0))\<rparr>,
      snd ps)"
  using assms
  by (simp add: handleSyncAttendees_def handleSaveChanges_def fetchAssignment_def Let_def)

lemma sync_saved:
  assumes "snd (fold (sync_attendee now) (attendees (snd ps)) (statusMap_p (fst ps), 0)) \<noteq> 0"
    and "map_of (assignments (snd ps)) id_a = Some a"
  shows "handleSyncAttendees id_a now ps =
     (let N = fst (fold (sync_attendee now) (attendees (snd ps)) (statusMap_p (fst ps), 0));
          U = fold (stamp_changed (assignment_p (fst ps)) now) (map fst N) N
      in (\<lparr>assignment_p = Some (a\<lparr>statusMap := U\<rparr>), statusMap_p = U\<rparr>,
          (snd ps)\<lparr>assignments := AList.update id_a (a\<lparr>statusMap := U\<rparr>) (assignments (snd ps))\<rparr>))"
  using assms
  by (simp add: handleSyncAttendees_def handleSaveChanges_def fetchAssignment_def Let_def
      update_conv')

lemma sync_lookup:
  "map_of (statusMap_p (fst (handleSyncAttendees id_a now ps))) k =
     (case map_of (statusMap_p (fst ps)) k of
        Some e \<Rightarrow>
          if snd (fold (sync_attendee now) (attendees (snd ps)) (statusMap_p (fst ps), 0)) \<noteq> 0
             \<and> map_of (assignments (snd ps)) id_a \<noteq> None
          then Some (stamp1 (assignment_p (fst ps)) now k e)
          else Some e
      | None \<Rightarrow>
          map_option (assigned_entry now) (find (\<lambda>a. fst a = k) (attendees (snd ps))))"
proof (cases "snd (fold (sync_attendee now) (attendees (snd ps)) (statusMap_p (fst ps), 0)) = 0")
  case True
  then have all: "\<forall>a \<in> set (attendees (snd ps)). map_of (statusMap_p (fst ps)) (fst a) \<noteq> None"
    using fold_sync_unchanged [of now "attendees (snd ps)" "(statusMap_p (fst ps), 0)"] by simp
  have "find (\<lambda>a. fst a = k) (attendees (snd ps)) = None" if "map_of (statusMap_p (fst ps)) k = None"
  proof -
    have "\<not> (\<exists>a. a \<in> set (attendees (snd ps)) \<and> fst a = k)" using all that by auto
    then show ?thesis by (simp add: find_None_iff)
  qed
  then show ?thesis
    using True by (simp add: sync_nothing_missing split: option.splits)
next
  case False
  note n = False
  show ?thesis
  proof (cases "map_of (assignments (snd ps)) id_a")
    case None
    show ?thesis
      using n None
      by (simp add: sync_document_gone [OF n None] fold_sync_lookup split: option.splits)
  next
    case (Some a)
    show ?thesis
      using n Some
      by (simp add: sync_saved [OF n Some] Let_def stamp_all_lookup fold_sync_lookup
          stamp1_assigned split: option.splits)
  qed
qed

lemma sync_attendees: "attendees (snd (handleSyncAttendees id_a now ps)) = attendees (snd ps)"
proof (cases "snd (fold (sync_attendee now) (attendees (snd ps)) (statusMap_p (fst ps), 0)) = 0")
  case True
  then show ?thesis by (simp add: sync_nothing_missing)
next
  case False
  then show ?thesis
    by (cases "map_of (assignments (snd ps)) id_a")
       (simp_all add: sync_document_gone sync_saved Let_def)
qed

lemma sync_complete:
  assumes "a \<in> set (attendees (snd ps))"
  shows "map_of (statusMap_p (fst (handleSyncAttendees id_a now ps))) (fst a) \<noteq> None"
proof -
  have "\<exists>x. x \<in> set (attendees (snd ps)) \<and> fst x = fst a"
    using assms by blast
  then have "find (\<lambda>b. fst b = fst a) (attendees (snd ps)) \<noteq> None"
    by (simp add: find_None_iff)
  then show ?thesis
    by (auto simp: sync_lookup split: option.splits)
qed

text \<open>
  Claim C6. Syncing twice in a row, with no change of the roster in between, gives the
  page and the store that syncing once gives: the second call finds every roster member
  in the status map, adds nothing and writes nothing.
\<close>

theorem sync_idempotent:
  "handleSyncAttendees id_a now2 (handleSyncAttendees id_a now ps) = handleSyncAttendees id_a now ps"
proof -
  let ?ps = "handleSyncAttendees id_a now ps"
  have "\<forall>a \<in> set (attendees (snd ?ps)). map_of (fst (statusMap_p (fst ?ps), 0::nat)) (fst a) \<noteq> None"
    using sync_complete [of _ ps id_a now] by (simp add: sync_attendees)
  then have "fold (sync_attendee now2) (attendees (snd ?ps)) (statusMap_p (fst ?ps), 0)
               = (statusMap_p (fst ?ps), 0)"
    by (rule fold_sync_present)
  then show ?thesis by (simp add: sync_nothing_missing)
qed









lemmas sync_eval =
  handleSyncAttendees_def sync_attendee_def handleSaveChanges_def stamp_changed_def
  loaded_entry_def fetchAssignment_def assigned_entry_def Let_def



theorem sync_idempotent_witness:
  "handleSyncAttendees ''hw1'' 13
     (handleSyncAttendees ''hw1'' 12 (fetchAssignment ''hw1'' (blank_page, three_roster)))
   = handleSyncAttendees ''hw1'' 12 (fetchAssignment ''hw1'' (blank_page, three_roster))
   \<and> map fst (statusMap_p (fst
        (handleSyncAttendees ''hw1'' 12 (fetchAssignment ''hw1'' (blank_page, three_roster)))))
       = [''s1'', ''s2'', ''s3'']"
proof -
  have "map fst (statusMap_p (fst
        (handleSyncAttendees ''hw1'' 12 (fetchAssignment ''hw1'' (blank_page, three_roster)))))
       = [''s1'', ''s2'', ''s3'']"
    by (simp add: sync_eval)
  with sync_idempotent [of "''hw1''" 13 12 "fetchAssignment ''hw1'' (blank_page, three_roster)"]
  show ?thesis by (rule conjI)
qed

subsection \<open>Submissions and reviews\<close>

lemma handleSubmitAssignment_result:
  assumes "map_of (assignments s) aid = Some a"
  shows "handleSubmitAssignment (Some (aid, sel)) (Some (sid, prof)) (Some u) submissionNote now s =
     (None,
      s\<lparr>submissions :=
          AList.update (aid @ ''_'' @ sid)
            (case map_of (submissions s) (aid @ ''_'' @ sid) of
               None \<Rightarrow>
                 \<lparr> assignmentId = aid, studentId_s = sid,
                   studentEmail = email_u u, fileURL_s = None, fileName_s = None,
                   notes_s = Some submissionNote, submittedAt = now,
                   status_s = submitted, grade_s = None, feedback_s = None \<rparr>
             | Some d \<Rightarrow>
                 d\<lparr> assignmentId := aid, studentId_s := sid,
                    studentEmail := email_u u, notes_s := Some submissionNote,
                    submittedAt := now, status_s := submitted \<rparr>)
            (submissions s),
        assignments :=
          AList.update aid
            (a\<lparr>statusMap :=
                AList.update sid
                  (case map_of (statusMap a) sid of
                     None \<Rightarrow>
                       \<lparr> studentId_e = None, studentName_e = None, email_e = None,
                         status_e = Submitted, grade_e = None,
                         note_e = Some submissionNote, fileURL_e = Some '''',
                         fileName_e = Some '''', updatedAt_e = now \<rparr>
                   | Some e \<Rightarrow>
                       e\<lparr> status_e := Submitted, note_e := Some submissionNote,
                          fileURL_e := Some '''', fileName_e := Some '''',
                          updatedAt_e := now \<rparr>)
                  (statusMap a)\<rparr>)
            (assignments s)\<rparr>)"
  using assms by (simp add: handleSubmitAssignment_def Let_def cong: option.case_cong)

text \<open>
  Claim C7. When the assignment exists, a student's submit succeeds and leaves a
  submission document under \<^verbatim>\<open>assignmentId_studentId\<close> with status \<open>submitted\<close> and the given
  note; the student's entry of the assignment's status map has status \<open>Submitted\<close>, the
  note, and empty \<open>fileURL\<close> and \<open>fileName\<close>; the entry of every other student is as before.
\<close>

theorem student_submit:
  assumes "map_of (assignments s) aid = Some a"
  shows "fst (handleSubmitAssignment (Some (aid, sel)) (Some (sid, prof)) (Some u)
                submissionNote now s) = None
     \<and> (\<exists>sub. map_of (submissions (snd (handleSubmitAssignment (Some (aid, sel))
                    (Some (sid, prof)) (Some u) submissionNote now s))) (aid @ ''_'' @ sid)
                = Some sub
           \<and> status_s sub = submitted \<and> notes_s sub = Some submissionNote
           \<and> assignmentId sub = aid \<and> studentId_s sub = sid)
     \<and> (\<exists>a' e. map_of (assignments (snd (handleSubmitAssignment (Some (aid, sel))
                    (Some (sid, prof)) (Some u) submissionNote now s))) aid = Some a'
           \<and> map_of (statusMap a') sid = Some e
           \<and> status_e e = Submitted \<and> note_e e = Some submissionNote
           \<and> fileURL_e e = Some '''' \<and> fileName_e e = Some ''''
           \<and> (\<forall>k. k \<noteq> sid \<longrightarrow> map_of (statusMap a') k = map_of (statusMap a) k))"
proof -
  note r = handleSubmitAssignment_result [OF assms, of sel sid prof u submissionNote now]
  show ?thesis
    unfolding r by (simp add: update_conv' split: option.splits)
qed

lemma handleSaveReview_result:
  assumes "map_of reviews (fst submission) = Some rv"
    and "map_of (submissions s) (fst submission) = Some d"
    and "map_of (assignments s) id_a = Some a"
  shows "handleSaveReview id_a reviews submission now s =
     (None,
      s\<lparr>submissions :=
          AList.update (fst submission)
            (d\<lparr> feedback_s := Some (feedback_r rv), grade_s := Some (grade_r rv),
                status_s := graded \<rparr>)
            (submissions s),
        assignments :=
          AList.update id_a
            (a\<lparr>statusMap :=
                AList.update (studentId_s (snd submission))
                  (case map_of (statusMap a) (studentId_s (snd submission)) of
                     None \<Rightarrow>
                       \<lparr> studentId_e = None, studentName_e = None, email_e = None,
                         status_e = Graded, grade_e = Some (grade_r rv),
                         note_e = None, fileURL_e = None, fileName_e = None,
                         updatedAt_e = now \<rparr>
                   | Some e \<Rightarrow>
                       e\<lparr> status_e := Graded, grade_e := Some (grade_r rv),
                          updatedAt_e := now \<rparr>)
                  (statusMap a)\<rparr>)
            (assignments s)\<rparr>)"
  using assms by (simp add: handleSaveReview_def Let_def cong: option.case_cong)

text \<open>
  Claim C8. When the review, the submission document and the assignment exist, saving a
  review succeeds: the submission document gets status \<open>graded\<close>, the grade and the feedback,
  and nothing else in it changes; the student's entry of the status map gets status
  \<open>Graded\<close> and the grade, and an entry that was there keeps every other field but
  \<open>updatedAt\<close>, so its note, \<open>fileURL\<close> and \<open>fileName\<close>; the entry of every other student is as
  before. The feedback is not mirrored: an entry has no field for it, and the assignments
  after the call are the same whatever the feedback is.
\<close>

theorem save_review:
  assumes "map_of reviews (fst submission) = Some rv"
    and "map_of (submissions s) (fst submission) = Some d"
    and "map_of (assignments s) id_a = Some a"
  shows "fst (handleSaveReview id_a reviews submission now s) = None
     \<and> map_of (submissions (snd (handleSaveReview id_a reviews submission now s))) (fst submission)
         = Some (d\<lparr> feedback_s := Some (feedback_r rv), grade_s := Some (grade_r rv),
                    status_s := graded \<rparr>)
     \<and> (\<exists>a' e. map_of (assignments (snd (handleSaveReview id_a reviews submission now s))) id_a
                  = Some a'
           \<and> map_of (statusMap a') (studentId_s (snd submission)) = Some e
           \<and> status_e e = Graded \<and> grade_e e = Some (grade_r rv)
           \<and> (\<forall>old. map_of (statusMap a) (studentId_s (snd submission)) = Some old \<longrightarrow>
                 e = old\<lparr>status_e := Graded, grade_e := Some (grade_r rv), updatedAt_e := now\<rparr>
                 \<and> note_e e = note_e old \<and> fileURL_e e = fileURL_e old
                 \<and> fileName_e e = fileName_e old)
           \<and> (\<forall>k. k \<noteq> studentId_s (snd submission) \<longrightarrow>
                 map_of (statusMap a') k = map_of (statusMap a) k))
     \<and> (\<forall>fb. assignments (snd (handleSaveReview id_a
                   (AList.update (fst submission) (rv\<lparr>feedback_r := fb\<rparr>) reviews)
                   submission now s))
            = assignments (snd (handleSaveReview id_a reviews submission now s)))"
proof -
  note r = handleSaveReview_result [OF assms, of now]
  have r2: "handleSaveReview id_a
              (AList.update (fst submission) (rv\<lparr>feedback_r := fb\<rparr>) reviews) submission now s
            = (None,
      s\<lparr>submissions :=
          AList.update (fst submission)
            (d\<lparr> feedback_s := Some fb, grade_s := Some (grade_r rv),
                status_s := graded \<rparr>)
            (submissions s),
        assignments :=
          AList.update id_a
            (a\<lparr>statusMap :=
                AList.update (studentId_s (snd submission))
                  (case map_of (statusMap a) (studentId_s (snd submission)) of
                     None \<Rightarrow>
                       \<lparr> studentId_e = None, studentName_e = None, email_e = None,
                         status_e = Graded, grade_e = Some (grade_r rv),
                         note_e = None, fileURL_e = None, fileName_e = None,
                         updatedAt_e = now \<rparr>
                   | Some e \<Rightarrow>
                       e\<lparr> status_e := Graded, grade_e := Some (grade_r rv),
                          updatedAt_e := now \<rparr>)
                  (statusMap a)\<rparr>)
            (assignments s)\<rparr>)" for fb
    using handleSaveReview_result
      [of "AList.update (fst submission) (rv\<lparr>feedback_r := fb\<rparr>) reviews" submission
          "rv\<lparr>feedback_r := fb\<rparr>" s d id_a a now] assms(2,3)
    by (simp add: update_conv' cong: option.case_cong)
  show ?thesis
    unfolding r r2 by (simp add: update_conv' split: option.splits)
qed

theorem student_submit_witness:
  "map_of (assignments three_roster) ''hw1'' = Some essay
   \<and> handleSubmitAssignment (Some (''hw1'', essay)) (Some ann) (Some ann_user) ''done'' 20
        three_roster = (None, submitted_store)
   \<and> (\<exists>a' e. map_of (assignments (snd (handleSubmitAssignment (Some (''hw1'', essay))
                    (Some ann) (Some ann_user) ''done'' 20 three_roster))) ''hw1'' = Some a'
           \<and> map_of (statusMap a') ''s1'' = Some e
           \<and> status_e e = Submitted \<and> note_e e = Some ''done''
           \<and> fileURL_e e = Some '''' \<and> fileName_e e = Some ''''
           \<and> map_of (statusMap a') ''s2'' = Some (assigned_entry 10 bob))"
proof -
  have h: "map_of (assignments three_roster) ''hw1'' = Some essay" by simp
  from student_submit [OF h, of essay "''s1''" "snd ann" ann_user "''done''" 20]
  obtain a' e where
    st: "map_of (assignments (snd (handleSubmitAssignment (Some (''hw1'', essay))
                    (Some ann) (Some ann_user) ''done'' 20 three_roster))) ''hw1'' = Some a'"
    and en: "map_of (statusMap a') ''s1'' = Some e"
      "status_e e = Submitted" "note_e e = Some ''done''"
      "fileURL_e e = Some ''''" "fileName_e e = Some ''''"
    and others: "\<forall>k. k \<noteq> ''s1'' \<longrightarrow> map_of (statusMap a') k = map_of (statusMap essay) k"
    by auto
  have o: "map_of (statusMap a') ''s2'' = Some (assigned_entry 10 bob)"
    using others [rule_format, of "''s2''"] by simp
  have ev: "handleSubmitAssignment (Some (''hw1'', essay)) (Some ann) (Some ann_user) ''done'' 20
        three_roster = (None, submitted_store)"
    by (simp add: handleSubmitAssignment_def assigned_entry_def Let_def)
  have ex: "\<exists>a' e. map_of (assignments (snd (handleSubmitAssignment (Some (''hw1'', essay))
                    (Some ann) (Some ann_user) ''done'' 20 three_roster))) ''hw1'' = Some a'
           \<and> map_of (statusMap a') ''s1'' = Some e
           \<and> status_e e = Submitted \<and> note_e e = Some ''done''
           \<and> fileURL_e e = Some '''' \<and> fileName_e e = Some ''''
           \<and> map_of (statusMap a') ''s2'' = Some (assigned_entry 10 bob)"
    using st en o by (intro exI [of _ a'] exI [of _ e] conjI)
  show ?thesis using h ev ex by (intro conjI)
qed

theorem save_review_witness:
  "map_of ann_reviews ''hw1_s1'' = Some \<lparr>feedback_r = ''good'', grade_r = ''A''\<rparr>
   \<and> map_of (submissions submitted_store) ''hw1_s1'' = Some ann_submission
   \<and> fst (handleSaveReview ''hw1'' ann_reviews (''hw1_s1'', ann_submission) 30 submitted_store)
       = None
   \<and> map_of (submissions (snd (handleSaveReview ''hw1'' ann_reviews
        (''hw1_s1'', ann_submission) 30 submitted_store))) ''hw1_s1''
       = Some (ann_submission\<lparr>feedback_s := Some ''good'', grade_s := Some ''A'',
                status_s := graded\<rparr>)
   \<and> (\<exists>a'. map_of (assignments (snd (handleSaveReview ''hw1'' ann_reviews
                  (''hw1_s1'', ann_submission) 30 submitted_store))) ''hw1'' = Some a'
         \<and> map_of (statusMap a') ''s1''
             = Some (ann_submitted\<lparr>status_e := Graded, grade_e := Some ''A'', updatedAt_e := 30\<rparr>)
         \<and> map_of (statusMap a') ''s2'' = Some (assigned_entry 10 bob))
   \<and> assignments (snd (handleSaveReview ''hw1''
        (AList.update ''hw1_s1'' \<lparr>feedback_r = ''poor'', grade_r = ''A''\<rparr> ann_reviews)
        (''hw1_s1'', ann_submission) 30 submitted_store))
       = assignments (snd (handleSaveReview ''hw1'' ann_reviews
        (''hw1_s1'', ann_submission) 30 submitted_store))"
proof -
  have h1: "map_of ann_reviews (fst (''hw1_s1'', ann_submission))
              = Some \<lparr>feedback_r = ''good'', grade_r = ''A''\<rparr>" by simp
  have h2: "map_of (submissions submitted_store) (fst (''hw1_s1'', ann_submission))
              = Some ann_submission" by simp
  have h3: "map_of (assignments submitted_store) ''hw1''
              = Some (essay\<lparr>statusMap :=
                   [(''s1'', ann_submitted), (''s2'', assigned_entry 10 bob)]\<rparr>)" by simp
  note t = save_review [OF h1 h2 h3, of 30]
  have a: "fst (handleSaveReview ''hw1'' ann_reviews (''hw1_s1'', ann_submission) 30
             submitted_store) = None"
    using t [THEN conjunct1] .
  have b: "map_of (submissions (snd (handleSaveReview ''hw1'' ann_reviews
        (''hw1_s1'', ann_submission) 30 submitted_store))) ''hw1_s1''
       = Some (ann_submission\<lparr>feedback_s := Some ''good'', grade_s := Some ''A'',
                status_s := graded\<rparr>)"
    using t [THEN conjunct2, THEN conjunct1] by simp
  from t [THEN conjunct2, THEN conjunct2, THEN conjunct1]
  obtain a' e where
    st: "map_of (assignments (snd (handleSaveReview ''hw1'' ann_reviews
                  (''hw1_s1'', ann_submission) 30 submitted_store))) ''hw1'' = Some a'"
    and en: "map_of (statusMap a') ''s1'' = Some e"
    and old: "\<forall>old. map_of [(''s1'', ann_submitted), (''s2'', assigned_entry 10 bob)] ''s1''
                      = Some old \<longrightarrow>
                 e = old\<lparr>status_e := Graded, grade_e := Some ''A'', updatedAt_e := 30\<rparr>
                 \<and> note_e e = note_e old \<and> fileURL_e e = fileURL_e old
                 \<and> fileName_e e = fileName_e old"
    and others: "\<forall>k. k \<noteq> ''s1'' \<longrightarrow> map_of (statusMap a') k
                   = map_of [(''s1'', ann_submitted), (''s2'', assigned_entry 10 bob)] k"
    by auto
  have e: "e = ann_submitted\<lparr>status_e := Graded, grade_e := Some ''A'', updatedAt_e := 30\<rparr>"
    using old [rule_format, of ann_submitted] by simp
  have o: "map_of (statusMap a') ''s2'' = Some (assigned_entry 10 bob)"
    using others [rule_format, of "''s2''"] by simp
  have c: "\<exists>a'. map_of (assignments (snd (handleSaveReview ''hw1'' ann_reviews
                  (''hw1_s1'', ann_submission) 30 submitted_store))) ''hw1'' = Some a'
         \<and> map_of (statusMap a') ''s1''
             = Some (ann_submitted\<lparr>status_e := Graded, grade_e := Some ''A'', updatedAt_e := 30\<rparr>)
         \<and> map_of (statusMap a') ''s2'' = Some (assigned_entry 10 bob)"
    using st en o unfolding e by (intro exI [of _ a'] conjI)
  have d: "assignments (snd (handleSaveReview ''hw1''
        (AList.update ''hw1_s1'' \<lparr>feedback_r = ''poor'', grade_r = ''A''\<rparr> ann_reviews)
        (''hw1_s1'', ann_submission) 30 submitted_store))
       = assignments (snd (handleSaveReview ''hw1'' ann_reviews
        (''hw1_s1'', ann_submission) 30 submitted_store))"
    using t [THEN conjunct2, THEN conjunct2, THEN conjunct2, rule_format, of "''poor''"]
    by simp
  have h1': "map_of ann_reviews ''hw1_s1'' = Some \<lparr>feedback_r = ''good'', grade_r = ''A''\<rparr>"
    by simp
  have h2': "map_of (submissions submitted_store) ''hw1_s1'' = Some ann_submission" by simp
  show ?thesis using h1' h2' a b c d by (intro conjI)
qed

subsection \<open>Day documents of the reachable stores\<close>

lemma set_update_cases:
  "x \<in> set (AList.update k v al) \<Longrightarrow> x = (k, v) \<or> x \<in> set al"
  by (induction al) (auto split: if_splits)

lemma mark_attendee_consistent:
  assumes "\<forall>kr \<in> set recs.
         studentId_rec (snd kr) = fst kr \<and> date_rec (snd kr) = dateStr \<and>
         id_rec (snd kr) = dateStr @ ''_'' @ fst kr"
  shows "\<forall>kr \<in> set (mark_attendee dateStr now attendanceData a recs).
         studentId_rec (snd kr) = fst kr \<and> date_rec (snd kr) = dateStr \<and>
         id_rec (snd kr) = dateStr @ ''_'' @ fst kr"
proof
  fix kr
  assume m: "kr \<in> set (mark_attendee dateStr now attendanceData a recs)"
  show "studentId_rec (snd kr) = fst kr \<and> date_rec (snd kr) = dateStr \<and>
         id_rec (snd kr) = dateStr @ ''_'' @ fst kr"
  proof (cases "chosen_status attendanceData (fst a)")
    case None
    then have "mark_attendee dateStr now attendanceData a recs = recs"
      by (auto simp: mark_attendee_def chosen_status_def split: option.splits)
    then show ?thesis using m assms by simp
  next
    case (Some st)
    then obtain e where e: "map_of attendanceData (fst a) = Some e" "status_edit e = Some st"
      by (cases "map_of attendanceData (fst a)") (simp_all add: chosen_status_def)
    let ?r = "\<lparr> id_rec = dateStr @ ''_'' @ fst a, studentId_rec = fst a,
                studentName_rec = name (snd a), email_rec = email (snd a),
                date_rec = dateStr, status_rec = st,
                note_rec = Some (case note_edit e of None \<Rightarrow> '''' | Some n \<Rightarrow> n),
                updatedAt_rec = now \<rparr>"
    have "mark_attendee dateStr now attendanceData a recs = AList.update (fst a) ?r recs"
      using e by (simp add: mark_attendee_def)
    then have "kr \<in> set (AList.update (fst a) ?r recs)" using m by simp
    then have "kr = (fst a, ?r) \<or> kr \<in> set recs" by (rule set_update_cases)
    then show ?thesis
    proof
      assume "kr = (fst a, ?r)"
      then show ?thesis by simp
    next
      assume "kr \<in> set recs"
      then show ?thesis using assms by (rule bspec [rotated])
    qed
  qed
qed

lemma fold_mark_consistent:
  assumes "\<forall>kr \<in> set recs.
         studentId_rec (snd kr) = fst kr \<and> date_rec (snd kr) = dateStr \<and>
         id_rec (snd kr) = dateStr @ ''_'' @ fst kr"
  shows "\<forall>kr \<in> set (fold (mark_attendee dateStr now attendanceData) as recs).
         studentId_rec (snd kr) = fst kr \<and> date_rec (snd kr) = dateStr \<and>
         id_rec (snd kr) = dateStr @ ''_'' @ fst kr"
  using assms
proof (induction as arbitrary: recs)
  case Nil
  then show ?case by simp
next
  case (Cons a as)
  have "\<forall>kr \<in> set (mark_attendee dateStr now attendanceData a recs).
         studentId_rec (snd kr) = fst kr \<and> date_rec (snd kr) = dateStr \<and>
         id_rec (snd kr) = dateStr @ ''_'' @ fst kr"
    using Cons.prems by (rule mark_attendee_consistent)
  then have "\<forall>kr \<in> set (fold (mark_attendee dateStr now attendanceData) as
                      (mark_attendee dateStr now attendanceData a recs)).
         studentId_rec (snd kr) = fst kr \<and> date_rec (snd kr) = dateStr \<and>
         id_rec (snd kr) = dateStr @ ''_'' @ fst kr"
    by (rule Cons.IH)
  then show ?case by simp
qed

lemma extends_distinct: "extends xs P \<Longrightarrow> distinct (map fst P)"
  by (auto simp: extends_def)

lemma docPayload_consistent:
  assumes "distinct (map fst existing)"
    and "\<forall>kr \<in> set existing.
         studentId_rec (snd kr) = fst kr \<and> date_rec (snd kr) = dateStr \<and>
         id_rec (snd kr) = dateStr @ ''_'' @ fst kr"
  shows "day_consistent dateStr (docPayload dateStr now attendeeList attendanceData existing)"
proof -
  have "extends existing (fold (mark_attendee dateStr now attendanceData) attendeeList existing)"
    using assms(1) by (intro extends_fold_mark extends_refl)
  then have "distinct (map fst (fold (mark_attendee dateStr now attendanceData) attendeeList existing))"
    by (rule extends_distinct)
  then show ?thesis
    using fold_mark_consistent [OF assms(2), of now attendanceData attendeeList]
    by (simp add: day_consistent_def docPayload_def Let_def)
qed

lemma handleSaveAll_consistent:
  assumes "attendance_consistent s"
  shows "attendance_consistent (handleSaveAll dateStr now attendeeList attendanceData s)"
proof -
  let ?ex = "case map_of (attendance s) dateStr of None \<Rightarrow> [] | Some d \<Rightarrow> records d"
  let ?payload = "docPayload dateStr now attendeeList attendanceData ?ex"
  have old: "day_consistent dateStr d" if "map_of (attendance s) dateStr = Some d" for d
  proof -
    from that have "(dateStr, d) \<in> set (attendance s)" by (rule map_of_SomeD)
    then show ?thesis using assms by (auto simp: attendance_consistent_def)
  qed
  have wf: "\<forall>d. map_of (attendance s) dateStr = Some d \<longrightarrow> distinct (map fst (records d))"
    using old by (auto simp: day_consistent_def)
  have "day_consistent dateStr ?payload"
  proof (cases "map_of (attendance s) dateStr")
    case None
    then show ?thesis by (simp add: docPayload_consistent)
  next
    case (Some d)
    have "distinct (map fst (records d))"
      and "\<forall>kr \<in> set (records d).
         studentId_rec (snd kr) = fst kr \<and> date_rec (snd kr) = dateStr \<and>
         id_rec (snd kr) = dateStr @ ''_'' @ fst kr"
      using old [OF Some] by (simp_all add: day_consistent_def)
    then have "day_consistent dateStr
                 (docPayload dateStr now attendeeList attendanceData (records d))"
      by (rule docPayload_consistent)
    then show ?thesis using Some by simp
  qed
  moreover have "setDoc_merge (map_of (attendance s) dateStr) ?payload = ?payload"
    using wf by (rule setDoc_merge_payload)
  ultimately have new: "day_consistent dateStr
      (setDoc_merge (map_of (attendance s) dateStr) ?payload)" by simp
  show ?thesis
    unfolding attendance_consistent_def
  proof
    fix dd
    assume "dd \<in> set (attendance (handleSaveAll dateStr now attendeeList attendanceData s))"
    then have "dd \<in> set (AList.update dateStr
                 (setDoc_merge (map_of (attendance s) dateStr) ?payload) (attendance s))"
      by (simp add: handleSaveAll_def Let_def)
    then have "dd = (dateStr, setDoc_merge (map_of (attendance s) dateStr) ?payload)
               \<or> dd \<in> set (attendance s)"
      by (rule set_update_cases)
    then show "day_consistent (fst dd) (snd dd)"
      using new assms by (auto simp: attendance_consistent_def)
  qed
qed

lemma attendance_onSubmit:
  "attendance (snd (AttendeeForm_onSubmit attendeeToEdit newId now data s)) = attendance s"
  by (simp add: AttendeeForm_onSubmit_def Let_def split: list.splits option.splits)

lemma attendance_soft_delete: "attendance (handleSoftDelete now attendee s) = attendance s"
  by (simp add: handleSoftDelete_def)

lemma attendance_restore: "attendance (snd (handleRestore now archived s)) = attendance s"
  by (simp add: handleRestore_def Let_def)

lemma attendance_create:
  "attendance (CreateAssignmentPage_onSubmit newId now form s) = attendance s"
  by (simp add: CreateAssignmentPage_onSubmit_def Let_def)

lemma attendance_sync:
  "attendance (snd (handleSyncAttendees id_a now ps)) = attendance (snd ps)"
proof (cases "snd (fold (sync_attendee now) (attendees (snd ps)) (statusMap_p (fst ps), 0)) = 0")
  case True
  then show ?thesis by (simp add: sync_nothing_missing)
next
  case False
  then show ?thesis
    by (cases "map_of (assignments (snd ps)) id_a")
       (simp_all add: sync_document_gone sync_saved Let_def)
qed

lemma attendance_submit:
  "attendance (snd (handleSubmitAssignment selectedAssignment studentProfile user
                      submissionNote now s)) = attendance s"
  by (simp add: handleSubmitAssignment_def Let_def split: option.splits)

lemma attendance_review:
  "attendance (snd (handleSaveReview id_a reviews submission now s)) = attendance s"
  by (simp add: handleSaveReview_def Let_def split: option.splits)

lemma reachable_consistent: "reachable s \<Longrightarrow> attendance_consistent s"
proof (induction rule: reachable.induct)
  case (initial s)
  then show ?case by (simp add: attendance_consistent_def)
next
  case (save_all s dateStr now attendeeList attendanceData)
  then show ?case by (intro handleSaveAll_consistent)
next
  case (attendee_form s attendeeToEdit newId now data)
  then show ?case by (simp add: attendance_consistent_def attendance_onSubmit)
next
  case (soft_delete s now attendee)
  then show ?case by (simp add: attendance_consistent_def attendance_soft_delete)
next
  case (restore s now archived)
  then show ?case by (simp add: attendance_consistent_def attendance_restore)
next
  case (create_assignment s newId now form)
  then show ?case by (simp add: attendance_consistent_def attendance_create)
next
  case (sync_attendees s id_a now page)
  then show ?case by (simp add: attendance_consistent_def attendance_sync)
next
  case (submit_assignment s selectedAssignment studentProfile user submissionNote now)
  then show ?case by (simp add: attendance_consistent_def attendance_submit)
next
  case (save_review s id_a reviews submission now)
  then show ?case by (simp add: attendance_consistent_def attendance_review)
qed

lemma reachable_records_distinct:
  assumes "reachable s" and "map_of (attendance s) dateKey = Some doc"
  shows "distinct (map fst (records doc))"
proof -
  have "(dateKey, doc) \<in> set (attendance s)" using assms(2) by (rule map_of_SomeD)
  then have "day_consistent dateKey doc"
    using reachable_consistent [OF assms(1)] by (auto simp: attendance_consistent_def)
  then show ?thesis by (simp add: day_consistent_def)
qed

text \<open>
  Claim C10. Every day document of a store the handlers can produce is key-consistent:
  its \<open>date\<close> is the key it is stored under, and the record under a key \<open>k\<close> has
  \<open>studentId = k\<close>, the document's date as \<open>date\<close>, and that date, an underscore and \<open>k\<close> as
  \<open>id\<close>. The date key is the string that \<^verbatim>\<open>format(selectedDate, "yyyy-MM-dd")\<close> gave the handler.
\<close>

theorem saved_day_key_consistent:
  assumes "reachable s" and "map_of (attendance s) dateKey = Some doc"
  shows "date_doc doc = dateKey
     \<and> (\<forall>k r. map_of (records doc) k = Some r \<longrightarrow>
           studentId_rec r = k \<and> date_rec r = date_doc doc
           \<and> id_rec r = date_doc doc @ ''_'' @ k)"
proof -
  have "(dateKey, doc) \<in> set (attendance s)" using assms(2) by (rule map_of_SomeD)
  then have c: "day_consistent dateKey doc"
    using reachable_consistent [OF assms(1)] by (auto simp: attendance_consistent_def)
  then have d: "date_doc doc = dateKey" by (simp add: day_consistent_def)
  have "studentId_rec r = k \<and> date_rec r = dateKey \<and> id_rec r = dateKey @ ''_'' @ k"
    if "map_of (records doc) k = Some r" for k r
  proof -
    from that have "(k, r) \<in> set (records doc)" by (rule map_of_SomeD)
    then show ?thesis using c by (auto simp: day_consistent_def)
  qed
  then show ?thesis using d by simp
qed

theorem saved_day_key_consistent_witness:
  "reachable (handleSaveAll ''2024-01-15'' 9 [ann, bob] tuesday_edits
                (handleSaveAll ''2024-01-15'' 7 [ann, bob] monday_edits two_roster))
   \<and> (\<exists>doc r1 r2.
         map_of (attendance (handleSaveAll ''2024-01-15'' 9 [ann, bob] tuesday_edits
                (handleSaveAll ''2024-01-15'' 7 [ann, bob] monday_edits two_roster)))
           ''2024-01-15'' = Some doc
       \<and> date_doc doc = ''2024-01-15''
       \<and> map fst (records doc) = [''s2'', ''s1'']
       \<and> map_of (records doc) ''s2'' = Some r2
       \<and> studentId_rec r2 = ''s2'' \<and> date_rec r2 = ''2024-01-15''
       \<and> id_rec r2 = ''2024-01-15_s2'' \<and> updatedAt_rec r2 = 7
       \<and> map_of (records doc) ''s1'' = Some r1
       \<and> studentId_rec r1 = ''s1'' \<and> date_rec r1 = ''2024-01-15''
       \<and> id_rec r1 = ''2024-01-15_s1'' \<and> updatedAt_rec r1 = 9)"
proof -
  let ?s = "handleSaveAll ''2024-01-15'' 9 [ann, bob] tuesday_edits
                (handleSaveAll ''2024-01-15'' 7 [ann, bob] monday_edits two_roster)"
  have "reachable two_roster" by (rule reachable.initial) simp
  then have "reachable (handleSaveAll ''2024-01-15'' 7 [ann, bob] monday_edits two_roster)"
    by (rule reachable.save_all)
  then have r: "reachable ?s" by (rule reachable.save_all)
  obtain doc where d: "map_of (attendance ?s) ''2024-01-15'' = Some doc"
    and ks: "map fst (records doc) = [''s2'', ''s1'']"
    and t: "map (updatedAt_rec \<circ> snd) (records doc) = [7, 9]"
    by (simp add: attendance_eval)
  from ks obtain r2 r1 where rs: "records doc = [(''s2'', r2), (''s1'', r1)]"
    by (cases "records doc") (auto simp: map_eq_Cons_conv)
  have l2: "map_of (records doc) ''s2'' = Some r2" and l1: "map_of (records doc) ''s1'' = Some r1"
    by (simp_all add: rs)
  have u: "updatedAt_rec r2 = 7" "updatedAt_rec r1 = 9" using t by (simp_all add: rs)
  note c = saved_day_key_consistent [OF r d]
  have dd: "date_doc doc = ''2024-01-15''" using c by simp
  have c2: "studentId_rec r2 = ''s2'' \<and> date_rec r2 = ''2024-01-15''
       \<and> id_rec r2 = ''2024-01-15_s2''"
    using c [THEN conjunct2, rule_format, OF l2] dd by simp
  have c1: "studentId_rec r1 = ''s1'' \<and> date_rec r1 = ''2024-01-15''
       \<and> id_rec r1 = ''2024-01-15_s1''"
    using c [THEN conjunct2, rule_format, OF l1] dd by simp
  have "\<exists>doc r1 r2.
         map_of (attendance ?s) ''2024-01-15'' = Some doc
       \<and> date_doc doc = ''2024-01-15''
       \<and> map fst (records doc) = [''s2'', ''s1'']
       \<and> map_of (records doc) ''s2'' = Some r2
       \<and> studentId_rec r2 = ''s2'' \<and> date_rec r2 = ''2024-01-15''
       \<and> id_rec r2 = ''2024-01-15_s2'' \<and> updatedAt_rec r2 = 7
       \<and> map_of (records doc) ''s1'' = Some r1
       \<and> studentId_rec r1 = ''s1'' \<and> date_rec r1 = ''2024-01-15''
       \<and> id_rec r1 = ''2024-01-15_s1'' \<and> updatedAt_rec r1 = 9"
    using d dd ks l2 l1 c2 c1 u
    by (intro exI [of _ doc] exI [of _ r1] exI [of _ r2]) simp
  with r show ?thesis by (rule conjI)
qed

section \<open>The attendance percentage\<close>

subsection \<open>The double nearest to a quotient\<close>











subsection \<open>The error of the percentage\<close>





















end
